theory Spec2Isabelle
  imports Complex_Main "HOL-Library.Signed_Division"
begin

section \<open>StrokeEngine patterns (pattern.h)\<close>

text \<open>
  A shallow embedding of \<^verbatim>\<open>Software/lib/StrokeEngine/src/pattern.h\<close>: the base class
  \<^verbatim>\<open>Pattern\<close> and its nine subclasses. Every class is a record of its fields, every
  member function a HOL function that takes the object and returns the object it leaves
  behind (and the \<^verbatim>\<open>motionParameter\<close> it returns, for \<^verbatim>\<open>nextTarget\<close>).

  Conventions of the embedding.
  \<^item> A private field \<^verbatim>\<open>_f\<close> is written with its class's prefix: \<open>p_f\<close> for \<^verbatim>\<open>Pattern\<close>,
    \<open>tp_f\<close> TeasingPounding, \<open>rs_f\<close> RoboStroke, \<open>hh_f\<close> HalfnHalf, \<open>dp_f\<close> Deeper,
    \<open>sg_f\<close> StopNGo, \<open>in_f\<close> Insist, \<open>sl_f\<close> Slammin, \<open>kn_f\<close> Knot (an identifier cannot
    start with an underscore, and several classes reuse a field name).
  \<^item> \<^verbatim>\<open>float\<close> and \<^verbatim>\<open>double\<close> are the reals: arithmetic is exact, rounding to 24 or 53 bits
    is not modelled. \<^verbatim>\<open>int(x)\<close> and the implicit conversion of a \<^verbatim>\<open>float\<close> to \<^verbatim>\<open>long\<close>
    truncate towards zero (\<open>to_int\<close>).
  \<^item> \<^verbatim>\<open>int\<close> is the unbounded \<open>int\<close> and \<^verbatim>\<open>unsigned int\<close> is \<open>nat\<close>: no 32-bit wrap-around
    is modelled. \<^verbatim>\<open>/\<close> on \<^verbatim>\<open>int\<close> is \<open>sdiv\<close> (C truncates towards zero).
  \<^item> A call whose C++ has no defined result is the error value \<open>Inl\<close>: an integer division
    by zero, the conversion to \<^verbatim>\<open>int\<close> of a quotient whose divisor is zero (infinity or NaN),
    and \<^verbatim>\<open>sqrt\<close> of a negative number converted to \<^verbatim>\<open>int\<close>.
  \<^item> \<^verbatim>\<open>millis()\<close> is the argument \<open>now\<close> of every function that reads the clock; one call
    of \<^verbatim>\<open>nextTarget\<close> reads one clock value.
  \<^item> The debug output over \<^verbatim>\<open>Serial\<close> has no effect on the object and is left out.
\<close>

datatype error = DivideByZero | SqrtOfNegative

definition to_int :: "real \<Rightarrow> int" where
  \<comment> \<open>\<^verbatim>\<open>int(x)\<close> of a finite \<^verbatim>\<open>x\<close>: the fraction is dropped.\<close>
  "to_int x = (if 0 \<le> x then \<lfloor>x\<rfloor> else \<lceil>x\<rceil>)"

definition map_long :: "int \<Rightarrow> int \<Rightarrow> int \<Rightarrow> int \<Rightarrow> int \<Rightarrow> int" where
  \<comment> \<open>Arduino's \<^verbatim>\<open>long map(long x, long in_min, long in_max, long out_min, long out_max)\<close>:
      \<^verbatim>\<open>(x - in_min) * (out_max - out_min) / (in_max - in_min) + out_min\<close>. Every call in
      pattern.h has \<^verbatim>\<open>in_max - in_min\<close> equal to 100 or 200.\<close>
  "map_long x in_min in_max out_min out_max =
     ((x - in_min) * (out_max - out_min)) sdiv (in_max - in_min) + out_min"

definition fscale :: "real \<Rightarrow> real \<Rightarrow> real \<Rightarrow> real \<Rightarrow> real \<Rightarrow> real \<Rightarrow> real" where
  \<comment> \<open>Modelled from the spec: \<^verbatim>\<open>fscale\<close> of PatternMath.h, which is not among the sources.
      The spec (4.1): given (inputMin, inputMax, outputBegin, outputEnd, value, curve) it
      interpolates between outputBegin and outputEnd; the normalised fraction is clamped
      to [0,1]; curve = 0 is linear interpolation. Every call in pattern.h passes
      curve = 0.0 and inputMin < inputMax. For another curve the spec only says that the
      fraction is bent exponentially; the exponent \<open>10 powr (- curve / 10)\<close> stands for it.\<close>
  "fscale inputMin inputMax outputBegin outputEnd inputValue curve =
     (let normalized = max 0 (min 1 ((inputValue - inputMin) / (inputMax - inputMin)));
          bent = (if curve = 0 then normalized else normalized powr (10 powr (- curve / 10)))
      in outputBegin + bent * (outputEnd - outputBegin))"

subsection \<open>motionParameter and the base class\<close>

record motionParameter =
  stroke :: int
  speed :: int
  acceleration :: int
  skip :: bool

record Pattern =
  p_stroke :: int
  p_depth :: int
  p_timeOfStroke :: real
  p_sensation :: real
  p_index :: int
  p_name :: string
  p_nextMove :: motionParameter
  p_startDelayMillis :: int
  p_delayInMillis :: int
  p_maxSpeed :: nat
  p_maxAcceleration :: nat
  p_stepsPerMM :: nat

definition Pattern_new :: "string \<Rightarrow> int \<Rightarrow> int \<Rightarrow> real \<Rightarrow> Pattern" where
  \<comment> \<open>The constructor and the default member initialisers. \<^verbatim>\<open>_stroke\<close>, \<^verbatim>\<open>_depth\<close> and
      \<^verbatim>\<open>_timeOfStroke\<close> have none: they hold whatever the memory held, here the arguments
      \<open>stroke0\<close>, \<open>depth0\<close> and \<open>time0\<close>.\<close>
  "Pattern_new str stroke0 depth0 time0 =
     \<lparr> p_stroke = stroke0, p_depth = depth0, p_timeOfStroke = time0, p_sensation = 0.0,
       p_index = -1, p_name = str,
       p_nextMove = \<lparr> stroke = 0, speed = 0, acceleration = 0, skip = False \<rparr>,
       p_startDelayMillis = 0, p_delayInMillis = 0,
       p_maxSpeed = 0, p_maxAcceleration = 0, p_stepsPerMM = 0 \<rparr>"

definition Pattern_setTimeOfStroke :: "real \<Rightarrow> 'a Pattern_scheme \<Rightarrow> 'a Pattern_scheme" where
  "Pattern_setTimeOfStroke speed' s = s\<lparr>p_timeOfStroke := speed'\<rparr>"

definition Pattern_setStroke :: "int \<Rightarrow> 'a Pattern_scheme \<Rightarrow> 'a Pattern_scheme" where
  "Pattern_setStroke stroke' s = s\<lparr>p_stroke := stroke'\<rparr>"

definition Pattern_setDepth :: "int \<Rightarrow> 'a Pattern_scheme \<Rightarrow> 'a Pattern_scheme" where
  "Pattern_setDepth depth s = s\<lparr>p_depth := depth\<rparr>"

definition Pattern_setSensation :: "real \<Rightarrow> 'a Pattern_scheme \<Rightarrow> 'a Pattern_scheme" where
  "Pattern_setSensation sensation s = s\<lparr>p_sensation := sensation\<rparr>"

definition Pattern_setSpeedLimit ::
  "nat \<Rightarrow> nat \<Rightarrow> nat \<Rightarrow> 'a Pattern_scheme \<Rightarrow> 'a Pattern_scheme" where
  "Pattern_setSpeedLimit maxSpeed maxAcceleration stepsPerMM s =
     s\<lparr>p_maxSpeed := maxSpeed, p_maxAcceleration := maxAcceleration,
       p_stepsPerMM := stepsPerMM\<rparr>"

definition startDelay :: "nat \<Rightarrow> 'a Pattern_scheme \<Rightarrow> 'a Pattern_scheme" where
  "startDelay now s = s\<lparr>p_startDelayMillis := int now\<rparr>"

definition updateDelay :: "int \<Rightarrow> 'a Pattern_scheme \<Rightarrow> 'a Pattern_scheme" where
  "updateDelay delayInMillis s = s\<lparr>p_delayInMillis := delayInMillis\<rparr>"

definition isStillDelayed :: "nat \<Rightarrow> 'a Pattern_scheme \<Rightarrow> bool" where
  "isStillDelayed now s =
     (if int now > p_startDelayMillis s + p_delayInMillis s then False else True)"

definition set_move :: "motionParameter \<Rightarrow> nat \<Rightarrow> 'a Pattern_scheme \<Rightarrow> 'a Pattern_scheme" where
  \<comment> \<open>The end of every \<^verbatim>\<open>nextTarget\<close>: the command built in \<^verbatim>\<open>_nextMove\<close> stays in the
      object, and \<^verbatim>\<open>_index = index\<close>.\<close>
  "set_move mv index s = s\<lparr>p_nextMove := mv, p_index := int index\<rparr>"

definition Pattern_nextTarget ::
  "nat \<Rightarrow> 'a Pattern_scheme \<Rightarrow> motionParameter \<times> 'a Pattern_scheme" where
  \<comment> \<open>The base class's \<^verbatim>\<open>nextTarget\<close>; each of the nine subclasses overrides it.\<close>
  "Pattern_nextTarget index s = (p_nextMove s, s\<lparr>p_index := int index\<rparr>)"

subsection \<open>SimpleStroke\<close>

definition SimpleStroke_setTimeOfStroke :: "real \<Rightarrow> Pattern \<Rightarrow> Pattern" where
  "SimpleStroke_setTimeOfStroke speed' s = s\<lparr>p_timeOfStroke := 0.5 * speed'\<rparr>"

definition SimpleStroke_nextTarget :: "nat \<Rightarrow> Pattern \<Rightarrow> error + (motionParameter \<times> Pattern)" where
  "SimpleStroke_nextTarget index s =
     (if p_timeOfStroke s = 0 then Inl DivideByZero
      else
        let mv = p_nextMove s;
            mv = mv\<lparr>speed := to_int (1.5 * real_of_int (p_stroke s) / p_timeOfStroke s)\<rparr>;
            mv = mv\<lparr>acceleration := to_int (3.0 * real_of_int (speed mv) / p_timeOfStroke s)\<rparr>;
            mv = (if index mod 2 \<noteq> 0 then mv\<lparr>stroke := p_depth s - p_stroke s\<rparr>
                  else mv\<lparr>stroke := p_depth s\<rparr>)
        in Inr (mv, set_move mv index s))"

subsection \<open>TeasingPounding\<close>

record TeasingPounding = Pattern +
  tp_timeOfFastStroke :: real
  tp_timeOfInStroke :: real
  tp_timeOfOutStroke :: real

definition TeasingPounding_new :: "string \<Rightarrow> int \<Rightarrow> int \<Rightarrow> real \<Rightarrow> TeasingPounding" where
  "TeasingPounding_new str stroke0 depth0 time0 =
     Pattern.extend (Pattern_new str stroke0 depth0 time0)
       (TeasingPounding.fields 1.0 1.0 1.0)"

definition TeasingPounding_updateStrokeTiming :: "TeasingPounding \<Rightarrow> TeasingPounding" where
  \<comment> \<open>The divisor lies in [1,5] (lemma \<open>fscale_1_5\<close> below).\<close>
  "TeasingPounding_updateStrokeTiming s =
     (let s = s\<lparr>tp_timeOfFastStroke :=
                  (0.5 * p_timeOfStroke s) / fscale 0.0 100.0 1.0 5.0 \<bar>p_sensation s\<bar> 0.0\<rparr>
      in if p_sensation s > 0.0
         then s\<lparr>tp_timeOfInStroke := tp_timeOfFastStroke s,
                tp_timeOfOutStroke := p_timeOfStroke s - tp_timeOfFastStroke s\<rparr>
         else s\<lparr>tp_timeOfOutStroke := tp_timeOfFastStroke s,
                tp_timeOfInStroke := p_timeOfStroke s - tp_timeOfFastStroke s\<rparr>)"

definition TeasingPounding_setSensation :: "real \<Rightarrow> TeasingPounding \<Rightarrow> TeasingPounding" where
  "TeasingPounding_setSensation sensation s =
     TeasingPounding_updateStrokeTiming (s\<lparr>p_sensation := sensation\<rparr>)"

definition TeasingPounding_setTimeOfStroke :: "real \<Rightarrow> TeasingPounding \<Rightarrow> TeasingPounding" where
  "TeasingPounding_setTimeOfStroke speed' s =
     TeasingPounding_updateStrokeTiming (s\<lparr>p_timeOfStroke := speed'\<rparr>)"

definition TeasingPounding_nextTarget ::
  "nat \<Rightarrow> TeasingPounding \<Rightarrow> error + (motionParameter \<times> TeasingPounding)" where
  "TeasingPounding_nextTarget index s =
     (if index mod 2 \<noteq> 0 then
        (if tp_timeOfOutStroke s = 0 then Inl DivideByZero
         else
           let mv = p_nextMove s;
               mv = mv\<lparr>speed := to_int (1.5 * real_of_int (p_stroke s) / tp_timeOfOutStroke s)\<rparr>;
               mv = mv\<lparr>acceleration :=
                       to_int (3.0 * real_of_int (speed mv) / tp_timeOfOutStroke s)\<rparr>;
               mv = mv\<lparr>stroke := p_depth s - p_stroke s\<rparr>
           in Inr (mv, set_move mv index s))
      else
        (if tp_timeOfInStroke s = 0 then Inl DivideByZero
         else
           let mv = p_nextMove s;
               mv = mv\<lparr>speed := to_int (1.5 * real_of_int (p_stroke s) / tp_timeOfInStroke s)\<rparr>;
               mv = mv\<lparr>acceleration :=
                       to_int (3.0 * real_of_int (speed mv) / tp_timeOfInStroke s)\<rparr>;
               mv = mv\<lparr>stroke := p_depth s\<rparr>
           in Inr (mv, set_move mv index s)))"

subsection \<open>RoboStroke\<close>

record RoboStroke = Pattern +
  rs_x :: real

definition RoboStroke_new :: "string \<Rightarrow> int \<Rightarrow> int \<Rightarrow> real \<Rightarrow> RoboStroke" where
  "RoboStroke_new str stroke0 depth0 time0 =
     Pattern.extend (Pattern_new str stroke0 depth0 time0) (RoboStroke.fields (1.0 / 3.0))"

definition RoboStroke_setTimeOfStroke :: "real \<Rightarrow> RoboStroke \<Rightarrow> RoboStroke" where
  "RoboStroke_setTimeOfStroke speed' s = s\<lparr>p_timeOfStroke := 0.5 * speed'\<rparr>"

definition RoboStroke_setSensation :: "real \<Rightarrow> RoboStroke \<Rightarrow> RoboStroke" where
  "RoboStroke_setSensation sensation s =
     (let s = s\<lparr>p_sensation := sensation\<rparr>
      in if sensation \<ge> 0
         then s\<lparr>rs_x := fscale 0.0 100.0 (1.0 / 3.0) 0.5 sensation 0.0\<rparr>
         else s\<lparr>rs_x := fscale 0.0 100.0 (1.0 / 3.0) 0.05 (- sensation) 0.0\<rparr>)"

definition RoboStroke_nextTarget ::
  "nat \<Rightarrow> RoboStroke \<Rightarrow> error + (motionParameter \<times> RoboStroke)" where
  "RoboStroke_nextTarget index s =
     (if (1 - rs_x s) * p_timeOfStroke s = 0 \<or> rs_x s * p_timeOfStroke s = 0
      then Inl DivideByZero
      else
        let speed' = real_of_int (p_stroke s) / ((1 - rs_x s) * p_timeOfStroke s);
            mv = p_nextMove s;
            mv = mv\<lparr>speed := to_int speed'\<rparr>;
            mv = mv\<lparr>acceleration := to_int (speed' / (rs_x s * p_timeOfStroke s))\<rparr>;
            mv = (if index mod 2 \<noteq> 0 then mv\<lparr>stroke := p_depth s - p_stroke s\<rparr>
                  else mv\<lparr>stroke := p_depth s\<rparr>)
        in Inr (mv, set_move mv index s))"

subsection \<open>HalfnHalf\<close>

record HalfnHalf = Pattern +
  hh_timeOfFastStroke :: real
  hh_timeOfInStroke :: real
  hh_timeOfOutStroke :: real
  hh_half :: bool

definition HalfnHalf_new :: "string \<Rightarrow> int \<Rightarrow> int \<Rightarrow> real \<Rightarrow> HalfnHalf" where
  "HalfnHalf_new str stroke0 depth0 time0 =
     Pattern.extend (Pattern_new str stroke0 depth0 time0)
       (HalfnHalf.fields 1.0 1.0 1.0 True)"

definition HalfnHalf_updateStrokeTiming :: "HalfnHalf \<Rightarrow> HalfnHalf" where
  "HalfnHalf_updateStrokeTiming s =
     (let s = s\<lparr>hh_timeOfFastStroke :=
                  (0.5 * p_timeOfStroke s) / fscale 0.0 100.0 1.0 5.0 \<bar>p_sensation s\<bar> 0.0\<rparr>
      in if p_sensation s > 0.0
         then s\<lparr>hh_timeOfInStroke := hh_timeOfFastStroke s,
                hh_timeOfOutStroke := p_timeOfStroke s - hh_timeOfFastStroke s\<rparr>
         else s\<lparr>hh_timeOfOutStroke := hh_timeOfFastStroke s,
                hh_timeOfInStroke := p_timeOfStroke s - hh_timeOfFastStroke s\<rparr>)"

definition HalfnHalf_setSensation :: "real \<Rightarrow> HalfnHalf \<Rightarrow> HalfnHalf" where
  "HalfnHalf_setSensation sensation s =
     HalfnHalf_updateStrokeTiming (s\<lparr>p_sensation := sensation\<rparr>)"

definition HalfnHalf_setTimeOfStroke :: "real \<Rightarrow> HalfnHalf \<Rightarrow> HalfnHalf" where
  "HalfnHalf_setTimeOfStroke speed' s =
     HalfnHalf_updateStrokeTiming (s\<lparr>p_timeOfStroke := speed'\<rparr>)"

definition HalfnHalf_nextTarget ::
  "nat \<Rightarrow> HalfnHalf \<Rightarrow> error + (motionParameter \<times> HalfnHalf)" where
  "HalfnHalf_nextTarget index s =
     (let s = (if index = 0 then s\<lparr>hh_half := True\<rparr> else s);
          stroke' = (if hh_half s = True then p_stroke s sdiv 2 else p_stroke s)
      in if index mod 2 \<noteq> 0 then
           (if hh_timeOfOutStroke s = 0 then Inl DivideByZero
            else
              let mv = p_nextMove s;
                  mv = mv\<lparr>speed := to_int (1.5 * real_of_int stroke' / hh_timeOfOutStroke s)\<rparr>;
                  mv = mv\<lparr>acceleration :=
                          to_int (3.0 * real_of_int (speed mv) / hh_timeOfOutStroke s)\<rparr>;
                  mv = mv\<lparr>stroke := p_depth s - p_stroke s\<rparr>;
                  s = s\<lparr>hh_half := \<not> hh_half s\<rparr>
              in Inr (mv, set_move mv index s))
         else
           (if hh_timeOfInStroke s = 0 then Inl DivideByZero
            else
              let mv = p_nextMove s;
                  mv = mv\<lparr>speed := to_int (1.5 * real_of_int stroke' / hh_timeOfInStroke s)\<rparr>;
                  mv = mv\<lparr>acceleration :=
                          to_int (3.0 * real_of_int (speed mv) / hh_timeOfInStroke s)\<rparr>;
                  mv = mv\<lparr>stroke := (p_depth s - p_stroke s) + stroke'\<rparr>
              in Inr (mv, set_move mv index s)))"

subsection \<open>Deeper\<close>

record Deeper = Pattern +
  dp_countStrokesForRamp :: int

definition Deeper_new :: "string \<Rightarrow> int \<Rightarrow> int \<Rightarrow> real \<Rightarrow> Deeper" where
  "Deeper_new str stroke0 depth0 time0 =
     Pattern.extend (Pattern_new str stroke0 depth0 time0) (Deeper.fields 2)"

definition Deeper_setTimeOfStroke :: "real \<Rightarrow> Deeper \<Rightarrow> Deeper" where
  "Deeper_setTimeOfStroke speed' s = s\<lparr>p_timeOfStroke := 0.5 * speed'\<rparr>"

definition Deeper_setSensation :: "real \<Rightarrow> Deeper \<Rightarrow> Deeper" where
  "Deeper_setSensation sensation s =
     (let s = s\<lparr>p_sensation := sensation\<rparr>
      in if sensation < 0
         then s\<lparr>dp_countStrokesForRamp := map_long (to_int sensation) (-100) 0 2 11\<rparr>
         else s\<lparr>dp_countStrokesForRamp := map_long (to_int sensation) 0 100 11 32\<rparr>)"

definition Deeper_nextTarget :: "nat \<Rightarrow> Deeper \<Rightarrow> error + (motionParameter \<times> Deeper)" where
  \<comment> \<open>\<^verbatim>\<open>(index / 2) % _countStrokesForRamp\<close> is unsigned: the count is read modulo \<open>2 ^ 32\<close>.\<close>
  "Deeper_nextTarget index s =
     (if dp_countStrokesForRamp s = 0 \<or> p_timeOfStroke s = 0 then Inl DivideByZero
      else
        let slope = p_stroke s sdiv dp_countStrokesForRamp s;
            cycleIndex =
              int ((index div 2) mod nat (dp_countStrokesForRamp s mod 2 ^ 32)) + 1;
            amplitude = slope * cycleIndex;
            mv = p_nextMove s;
            mv = mv\<lparr>speed := to_int (1.5 * real_of_int amplitude / p_timeOfStroke s)\<rparr>;
            mv = mv\<lparr>acceleration := to_int (3.0 * real_of_int (speed mv) / p_timeOfStroke s)\<rparr>;
            mv = (if index mod 2 \<noteq> 0 then mv\<lparr>stroke := p_depth s - p_stroke s\<rparr>
                  else mv\<lparr>stroke := (p_depth s - p_stroke s) + amplitude\<rparr>)
        in Inr (mv, set_move mv index s))"

subsection \<open>StopNGo\<close>

record StopNGo = Pattern +
  sg_numberOfStrokes :: int
  sg_strokeSeriesIndex :: int
  sg_strokeIndex :: int
  sg_countStrokesUp :: bool

definition StopNGo_new :: "string \<Rightarrow> int \<Rightarrow> int \<Rightarrow> real \<Rightarrow> StopNGo" where
  "StopNGo_new str stroke0 depth0 time0 =
     Pattern.extend (Pattern_new str stroke0 depth0 time0) (StopNGo.fields 5 1 0 True)"

definition StopNGo_setTimeOfStroke :: "real \<Rightarrow> StopNGo \<Rightarrow> StopNGo" where
  "StopNGo_setTimeOfStroke speed' s = s\<lparr>p_timeOfStroke := 0.5 * speed'\<rparr>"

definition StopNGo_setSensation :: "real \<Rightarrow> StopNGo \<Rightarrow> StopNGo" where
  "StopNGo_setSensation sensation s =
     updateDelay (map_long (to_int sensation) (-100) 100 100 10000)
       (s\<lparr>p_sensation := sensation\<rparr>)"

definition StopNGo_seriesDone :: "nat \<Rightarrow> StopNGo \<Rightarrow> StopNGo" where
  \<comment> \<open>The body of \<^verbatim>\<open>if (_strokeIndex >= _strokeSeriesIndex)\<close> in \<^verbatim>\<open>nextTarget\<close>.\<close>
  "StopNGo_seriesDone now s =
     (let s = s\<lparr>sg_strokeIndex := 0\<rparr>;
          s = (if sg_strokeSeriesIndex s \<ge> sg_numberOfStrokes s
               then s\<lparr>sg_countStrokesUp := False\<rparr> else s);
          s = (if sg_strokeSeriesIndex s \<le> 1 then s\<lparr>sg_countStrokesUp := True\<rparr> else s);
          s = (if sg_countStrokesUp s = True
               then s\<lparr>sg_strokeSeriesIndex := sg_strokeSeriesIndex s + 1\<rparr>
               else s\<lparr>sg_strokeSeriesIndex := sg_strokeSeriesIndex s - 1\<rparr>)
      in startDelay now s)"

definition StopNGo_nextTarget ::
  "nat \<Rightarrow> nat \<Rightarrow> StopNGo \<Rightarrow> error + (motionParameter \<times> StopNGo)" where
  "StopNGo_nextTarget now index s =
     (if p_timeOfStroke s = 0 then Inl DivideByZero
      else
        let mv = p_nextMove s;
            mv = mv\<lparr>speed := to_int (1.5 * real_of_int (p_stroke s) / p_timeOfStroke s)\<rparr>;
            mv = mv\<lparr>acceleration := to_int (3.0 * real_of_int (speed mv) / p_timeOfStroke s)\<rparr>
        in if isStillDelayed now s = False then
             (if index mod 2 \<noteq> 0 then
                let mv = mv\<lparr>stroke := p_depth s - p_stroke s\<rparr>;
                    s = (if sg_strokeIndex s \<ge> sg_strokeSeriesIndex s
                         then StopNGo_seriesDone now s else s);
                    mv = mv\<lparr>skip := False\<rparr>
                in Inr (mv, set_move mv index s)
              else
                let mv = mv\<lparr>stroke := p_depth s\<rparr>;
                    s = s\<lparr>sg_strokeIndex := sg_strokeIndex s + 1\<rparr>;
                    mv = mv\<lparr>skip := False\<rparr>
                in Inr (mv, set_move mv index s))
           else
             let mv = mv\<lparr>skip := True\<rparr>
             in Inr (mv, set_move mv index s))"

subsection \<open>Insist\<close>

record Insist = Pattern +
  in_speed :: int
  in_acceleration :: int
  in_realStroke :: int
  in_strokeFraction :: real
  in_strokeInFront :: bool

definition Insist_new :: "string \<Rightarrow> int \<Rightarrow> int \<Rightarrow> real \<Rightarrow> Insist" where
  "Insist_new str stroke0 depth0 time0 =
     Pattern.extend (Pattern_new str stroke0 depth0 time0) (Insist.fields 0 0 0 1.0 False)"

definition Insist_updateStrokeTiming :: "Insist \<Rightarrow> error + Insist" where
  "Insist_updateStrokeTiming s =
     (if p_timeOfStroke s = 0 \<or> p_timeOfStroke s * in_strokeFraction s = 0
      then Inl DivideByZero
      else
        let s = s\<lparr>in_speed := to_int (1.5 * real_of_int (p_stroke s) / p_timeOfStroke s)\<rparr>;
            s = s\<lparr>in_acceleration :=
                    to_int (3.0 * real_of_int (speed (p_nextMove s))
                            / (p_timeOfStroke s * in_strokeFraction s))\<rparr>;
            s = s\<lparr>in_realStroke := to_int (real_of_int (p_stroke s) * in_strokeFraction s)\<rparr>
        in Inr s)"

definition Insist_setSensation :: "real \<Rightarrow> Insist \<Rightarrow> error + Insist" where
  "Insist_setSensation sensation s =
     (let s = s\<lparr>p_sensation := sensation\<rparr>;
          s = s\<lparr>in_strokeFraction := (100 - \<bar>sensation\<bar>) / 100.0\<rparr>;
          s = s\<lparr>in_strokeInFront := (if sensation > 0 then True else False)\<rparr>
      in Insist_updateStrokeTiming s)"

definition Insist_setTimeOfStroke :: "real \<Rightarrow> Insist \<Rightarrow> error + Insist" where
  "Insist_setTimeOfStroke speed' s =
     Insist_updateStrokeTiming (s\<lparr>p_timeOfStroke := 0.5 * speed'\<rparr>)"

definition Insist_setStroke :: "int \<Rightarrow> Insist \<Rightarrow> error + Insist" where
  "Insist_setStroke stroke' s = Insist_updateStrokeTiming (s\<lparr>p_stroke := stroke'\<rparr>)"

definition Insist_nextTarget :: "nat \<Rightarrow> Insist \<Rightarrow> error + (motionParameter \<times> Insist)" where
  "Insist_nextTarget index s =
     (let mv = p_nextMove s;
          mv = mv\<lparr>acceleration := in_acceleration s\<rparr>;
          mv = mv\<lparr>speed := in_speed s\<rparr>;
          mv = (if in_strokeInFront s then
                  (if index mod 2 \<noteq> 0 then mv\<lparr>stroke := p_depth s - in_realStroke s\<rparr>
                   else mv\<lparr>stroke := p_depth s\<rparr>)
                else
                  (if index mod 2 \<noteq> 0 then mv\<lparr>stroke := p_depth s - p_stroke s\<rparr>
                   else mv\<lparr>stroke := (p_depth s - p_stroke s) + in_realStroke s\<rparr>))
      in Inr (mv, set_move mv index s))"

subsection \<open>Slammin\<close>

record Slammin = Pattern +
  sl_speed :: real
  sl_outStrokeSpeed :: int

definition Slammin_new :: "string \<Rightarrow> int \<Rightarrow> int \<Rightarrow> real \<Rightarrow> Slammin" where
  "Slammin_new str stroke0 depth0 time0 =
     Pattern.extend (Pattern_new str stroke0 depth0 time0) (Slammin.fields 1.0 0)"

definition Slammin_updateOutStrokeSpeed :: "Slammin \<Rightarrow> error + Slammin" where
  "Slammin_updateOutStrokeSpeed s =
     (if p_timeOfStroke s = 0 then Inl DivideByZero
      else
        let sensationFactor = fscale (-100.0) 100.0 1.0 0.3 (p_sensation s) 0.0;
            strokeScale = (if p_stroke s > 0
                           then sqrt (real_of_int (p_stroke s) / 1000.0) + 0.5 else 1.0);
            baseSpeed = 1.5 * real_of_int (p_stroke s) / p_timeOfStroke s;
            s = s\<lparr>sl_outStrokeSpeed := to_int (baseSpeed * sensationFactor * strokeScale)\<rparr>;
            s = (if sl_outStrokeSpeed s < 100 then s\<lparr>sl_outStrokeSpeed := 100\<rparr> else s)
        in Inr s)"

definition Slammin_setTimeOfStroke :: "real \<Rightarrow> Slammin \<Rightarrow> error + Slammin" where
  "Slammin_setTimeOfStroke speed' s =
     Slammin_updateOutStrokeSpeed (s\<lparr>p_timeOfStroke := 0.5 * speed', sl_speed := speed'\<rparr>)"

definition Slammin_setSensation :: "real \<Rightarrow> Slammin \<Rightarrow> error + Slammin" where
  "Slammin_setSensation sensation s =
     Slammin_updateOutStrokeSpeed (s\<lparr>p_sensation := sensation\<rparr>)"

definition Slammin_setStroke :: "int \<Rightarrow> Slammin \<Rightarrow> error + Slammin" where
  "Slammin_setStroke stroke' s = Slammin_updateOutStrokeSpeed (s\<lparr>p_stroke := stroke'\<rparr>)"

definition Slammin_nextTarget ::
  "nat \<Rightarrow> nat \<Rightarrow> Slammin \<Rightarrow> error + (motionParameter \<times> Slammin)" where
  "Slammin_nextTarget now index s =
     (if 350000 * sl_speed s + 60000 < 0 then Inl SqrtOfNegative
      else
        let s = updateDelay (to_int (sqrt (350000 * sl_speed s + 60000) + 125)) s;
            mv = p_nextMove s
        in if \<not> isStillDelayed now s then
             (if p_timeOfStroke s = 0 then Inl DivideByZero
              else if index mod 2 \<noteq> 0 then
                let mv = mv\<lparr>speed := sl_outStrokeSpeed s\<rparr>;
                    mv = mv\<lparr>acceleration :=
                            to_int (1.1 * real_of_int (speed mv) / p_timeOfStroke s)\<rparr>;
                    mv = mv\<lparr>stroke := p_depth s - p_stroke s\<rparr>;
                    mv = mv\<lparr>skip := False\<rparr>
                in Inr (mv, set_move mv index s)
              else
                let mv = mv\<lparr>speed := to_int (1.6 * real_of_int (p_stroke s) / p_timeOfStroke s)\<rparr>;
                    mv = mv\<lparr>acceleration :=
                            to_int (2.8 * real_of_int (speed mv) / p_timeOfStroke s)\<rparr>;
                    mv = mv\<lparr>stroke := p_depth s\<rparr>;
                    s = startDelay now s;
                    mv = mv\<lparr>skip := False\<rparr>
                in Inr (mv, set_move mv index s))
           else
             let mv = mv\<lparr>skip := True\<rparr>
             in Inr (mv, set_move mv index s))"

subsection \<open>Knot\<close>

record Knot = Pattern +
  kn_speed :: real
  kn_slowSpeed :: int

definition Knot_new :: "string \<Rightarrow> int \<Rightarrow> int \<Rightarrow> real \<Rightarrow> Knot" where
  "Knot_new str stroke0 depth0 time0 =
     Pattern.extend (Pattern_new str stroke0 depth0 time0) (Knot.fields 1.0 0)"

definition Knot_updateSlowSpeed :: "Knot \<Rightarrow> error + Knot" where
  "Knot_updateSlowSpeed s =
     (if p_timeOfStroke s = 0 then Inl DivideByZero
      else
        let sensationFactor = fscale 0.0 100.0 0.5 0.05 \<bar>p_sensation s\<bar> 0.0;
            strokeScale = (if p_stroke s > 0
                           then sqrt (real_of_int (p_stroke s) / 1000.0) + 0.5 else 1.0);
            baseSpeed = 1.0 * real_of_int (p_stroke s) / p_timeOfStroke s;
            s = s\<lparr>kn_slowSpeed := to_int (baseSpeed * sensationFactor * strokeScale)\<rparr>;
            s = (if kn_slowSpeed s < 50 then s\<lparr>kn_slowSpeed := 50\<rparr> else s)
        in Inr s)"

definition Knot_setTimeOfStroke :: "real \<Rightarrow> Knot \<Rightarrow> error + Knot" where
  "Knot_setTimeOfStroke speed' s =
     Knot_updateSlowSpeed (s\<lparr>p_timeOfStroke := 0.5 * speed', kn_speed := speed'\<rparr>)"

definition Knot_setSensation :: "real \<Rightarrow> Knot \<Rightarrow> error + Knot" where
  "Knot_setSensation sensation s = Knot_updateSlowSpeed (s\<lparr>p_sensation := sensation\<rparr>)"

definition Knot_setStroke :: "int \<Rightarrow> Knot \<Rightarrow> error + Knot" where
  "Knot_setStroke stroke' s = Knot_updateSlowSpeed (s\<lparr>p_stroke := stroke'\<rparr>)"

definition Knot_phase :: "nat \<Rightarrow> nat \<Rightarrow> motionParameter \<Rightarrow> Knot \<Rightarrow> motionParameter \<times> Knot" where
  \<comment> \<open>The \<^verbatim>\<open>switch (phase)\<close> of \<^verbatim>\<open>nextTarget\<close>, entered with a nonzero \<^verbatim>\<open>_timeOfStroke\<close>.
      The acceleration of a phase is computed from the speed of the previous command,
      before the speed is overwritten.\<close>
  "Knot_phase now phase mv s =
     (if phase = 0 then
        let mv = mv\<lparr>acceleration := to_int (2.0 * real_of_int (speed mv) / p_timeOfStroke s)\<rparr>;
            mv = mv\<lparr>speed := to_int (1.0 * real_of_int (p_stroke s) / p_timeOfStroke s)\<rparr>;
            mv = mv\<lparr>stroke := p_depth s - p_stroke s\<rparr>
        in (mv, s)
      else if phase = 1 then
        let mv = mv\<lparr>acceleration := to_int (2.0 * real_of_int (speed mv) / p_timeOfStroke s)\<rparr>;
            mv = mv\<lparr>speed := to_int (0.8 * real_of_int (p_stroke s) / p_timeOfStroke s)\<rparr>;
            mv = mv\<lparr>stroke := to_int (real_of_int (p_depth s - p_stroke s)
                                        + real_of_int (p_stroke s) * 0.70)\<rparr>
        in (mv, s)
      else if phase = 2 then (mv, startDelay now s)
      else if phase = 3 then
        let mv = mv\<lparr>acceleration := to_int (2.3 * real_of_int (speed mv) / p_timeOfStroke s)\<rparr>;
            mv = mv\<lparr>speed := kn_slowSpeed s\<rparr>;
            mv = mv\<lparr>stroke := p_depth s\<rparr>
        in (mv, s)
      else if phase = 4 then (mv, startDelay now s)
      else (mv, s))"

definition Knot_nextTarget :: "nat \<Rightarrow> nat \<Rightarrow> Knot \<Rightarrow> error + (motionParameter \<times> Knot)" where
  "Knot_nextTarget now index s =
     (if p_timeOfStroke s = 0 then Inl DivideByZero
      else if 350000 * kn_speed s + 60000 < 0 then Inl SqrtOfNegative
      else
        let mv = p_nextMove s;
            mv = mv\<lparr>acceleration := to_int (3.0 * real_of_int (speed mv) / p_timeOfStroke s)\<rparr>;
            s = updateDelay (to_int (sqrt (350000 * kn_speed s + 60000) + 550)) s
        in if \<not> isStillDelayed now s then
             (case Knot_phase now (index mod 5) mv s of
                (mv, s) \<Rightarrow> let mv = mv\<lparr>skip := False\<rparr> in Inr (mv, set_move mv index s))
           else
             let mv = mv\<lparr>skip := True\<rparr>
             in Inr (mv, set_move mv index s))"

subsection \<open>Objects and virtual dispatch\<close>

text \<open>
  A \<^verbatim>\<open>Pattern*\<close> points to an object of one of the nine subclasses; a virtual call runs
  the override of the object's class, or the base class's function where the class has
  none.
\<close>

datatype pattern_object =
    SimpleStroke_obj Pattern
  | TeasingPounding_obj TeasingPounding
  | RoboStroke_obj RoboStroke
  | HalfnHalf_obj HalfnHalf
  | Deeper_obj Deeper
  | StopNGo_obj StopNGo
  | Insist_obj Insist
  | Slammin_obj Slammin
  | Knot_obj Knot

definition returned ::
  "('s \<Rightarrow> pattern_object) \<Rightarrow> error + (motionParameter \<times> 's) \<Rightarrow> error + (motionParameter \<times> pattern_object)" where
  "returned C r = (case r of Inl e \<Rightarrow> Inl e | Inr (mv, s) \<Rightarrow> Inr (mv, C s))"

definition updated :: "('s \<Rightarrow> pattern_object) \<Rightarrow> error + 's \<Rightarrow> error + pattern_object" where
  "updated C r = (case r of Inl e \<Rightarrow> Inl e | Inr s \<Rightarrow> Inr (C s))"

fun nextTarget :: "nat \<Rightarrow> nat \<Rightarrow> pattern_object \<Rightarrow> error + (motionParameter \<times> pattern_object)" where
  "nextTarget now index (SimpleStroke_obj s) = returned SimpleStroke_obj (SimpleStroke_nextTarget index s)"
| "nextTarget now index (TeasingPounding_obj s) = returned TeasingPounding_obj (TeasingPounding_nextTarget index s)"
| "nextTarget now index (RoboStroke_obj s) = returned RoboStroke_obj (RoboStroke_nextTarget index s)"
| "nextTarget now index (HalfnHalf_obj s) = returned HalfnHalf_obj (HalfnHalf_nextTarget index s)"
| "nextTarget now index (Deeper_obj s) = returned Deeper_obj (Deeper_nextTarget index s)"
| "nextTarget now index (StopNGo_obj s) = returned StopNGo_obj (StopNGo_nextTarget now index s)"
| "nextTarget now index (Insist_obj s) = returned Insist_obj (Insist_nextTarget index s)"
| "nextTarget now index (Slammin_obj s) = returned Slammin_obj (Slammin_nextTarget now index s)"
| "nextTarget now index (Knot_obj s) = returned Knot_obj (Knot_nextTarget now index s)"

fun setTimeOfStroke :: "real \<Rightarrow> pattern_object \<Rightarrow> error + pattern_object" where
  "setTimeOfStroke t (SimpleStroke_obj s) = Inr (SimpleStroke_obj (SimpleStroke_setTimeOfStroke t s))"
| "setTimeOfStroke t (TeasingPounding_obj s) = Inr (TeasingPounding_obj (TeasingPounding_setTimeOfStroke t s))"
| "setTimeOfStroke t (RoboStroke_obj s) = Inr (RoboStroke_obj (RoboStroke_setTimeOfStroke t s))"
| "setTimeOfStroke t (HalfnHalf_obj s) = Inr (HalfnHalf_obj (HalfnHalf_setTimeOfStroke t s))"
| "setTimeOfStroke t (Deeper_obj s) = Inr (Deeper_obj (Deeper_setTimeOfStroke t s))"
| "setTimeOfStroke t (StopNGo_obj s) = Inr (StopNGo_obj (StopNGo_setTimeOfStroke t s))"
| "setTimeOfStroke t (Insist_obj s) = updated Insist_obj (Insist_setTimeOfStroke t s)"
| "setTimeOfStroke t (Slammin_obj s) = updated Slammin_obj (Slammin_setTimeOfStroke t s)"
| "setTimeOfStroke t (Knot_obj s) = updated Knot_obj (Knot_setTimeOfStroke t s)"

fun setStroke :: "int \<Rightarrow> pattern_object \<Rightarrow> error + pattern_object" where
  "setStroke k (SimpleStroke_obj s) = Inr (SimpleStroke_obj (Pattern_setStroke k s))"
| "setStroke k (TeasingPounding_obj s) = Inr (TeasingPounding_obj (Pattern_setStroke k s))"
| "setStroke k (RoboStroke_obj s) = Inr (RoboStroke_obj (Pattern_setStroke k s))"
| "setStroke k (HalfnHalf_obj s) = Inr (HalfnHalf_obj (Pattern_setStroke k s))"
| "setStroke k (Deeper_obj s) = Inr (Deeper_obj (Pattern_setStroke k s))"
| "setStroke k (StopNGo_obj s) = Inr (StopNGo_obj (Pattern_setStroke k s))"
| "setStroke k (Insist_obj s) = updated Insist_obj (Insist_setStroke k s)"
| "setStroke k (Slammin_obj s) = updated Slammin_obj (Slammin_setStroke k s)"
| "setStroke k (Knot_obj s) = updated Knot_obj (Knot_setStroke k s)"

fun setDepth :: "int \<Rightarrow> pattern_object \<Rightarrow> pattern_object" where
  "setDepth k (SimpleStroke_obj s) = SimpleStroke_obj (Pattern_setDepth k s)"
| "setDepth k (TeasingPounding_obj s) = TeasingPounding_obj (Pattern_setDepth k s)"
| "setDepth k (RoboStroke_obj s) = RoboStroke_obj (Pattern_setDepth k s)"
| "setDepth k (HalfnHalf_obj s) = HalfnHalf_obj (Pattern_setDepth k s)"
| "setDepth k (Deeper_obj s) = Deeper_obj (Pattern_setDepth k s)"
| "setDepth k (StopNGo_obj s) = StopNGo_obj (Pattern_setDepth k s)"
| "setDepth k (Insist_obj s) = Insist_obj (Pattern_setDepth k s)"
| "setDepth k (Slammin_obj s) = Slammin_obj (Pattern_setDepth k s)"
| "setDepth k (Knot_obj s) = Knot_obj (Pattern_setDepth k s)"

fun setSensation :: "real \<Rightarrow> pattern_object \<Rightarrow> error + pattern_object" where
  "setSensation x (SimpleStroke_obj s) = Inr (SimpleStroke_obj (Pattern_setSensation x s))"
| "setSensation x (TeasingPounding_obj s) = Inr (TeasingPounding_obj (TeasingPounding_setSensation x s))"
| "setSensation x (RoboStroke_obj s) = Inr (RoboStroke_obj (RoboStroke_setSensation x s))"
| "setSensation x (HalfnHalf_obj s) = Inr (HalfnHalf_obj (HalfnHalf_setSensation x s))"
| "setSensation x (Deeper_obj s) = Inr (Deeper_obj (Deeper_setSensation x s))"
| "setSensation x (StopNGo_obj s) = Inr (StopNGo_obj (StopNGo_setSensation x s))"
| "setSensation x (Insist_obj s) = updated Insist_obj (Insist_setSensation x s)"
| "setSensation x (Slammin_obj s) = updated Slammin_obj (Slammin_setSensation x s)"
| "setSensation x (Knot_obj s) = updated Knot_obj (Knot_setSensation x s)"

fun setSpeedLimit :: "nat \<Rightarrow> nat \<Rightarrow> nat \<Rightarrow> pattern_object \<Rightarrow> pattern_object" where
  "setSpeedLimit a b c (SimpleStroke_obj s) = SimpleStroke_obj (Pattern_setSpeedLimit a b c s)"
| "setSpeedLimit a b c (TeasingPounding_obj s) = TeasingPounding_obj (Pattern_setSpeedLimit a b c s)"
| "setSpeedLimit a b c (RoboStroke_obj s) = RoboStroke_obj (Pattern_setSpeedLimit a b c s)"
| "setSpeedLimit a b c (HalfnHalf_obj s) = HalfnHalf_obj (Pattern_setSpeedLimit a b c s)"
| "setSpeedLimit a b c (Deeper_obj s) = Deeper_obj (Pattern_setSpeedLimit a b c s)"
| "setSpeedLimit a b c (StopNGo_obj s) = StopNGo_obj (Pattern_setSpeedLimit a b c s)"
| "setSpeedLimit a b c (Insist_obj s) = Insist_obj (Pattern_setSpeedLimit a b c s)"
| "setSpeedLimit a b c (Slammin_obj s) = Slammin_obj (Pattern_setSpeedLimit a b c s)"
| "setSpeedLimit a b c (Knot_obj s) = Knot_obj (Pattern_setSpeedLimit a b c s)"

subsection \<open>Clients\<close>

text \<open>
  The classes of the file, the construction of an object of a class, and a client: a
  list of calls made on one object, each call on the object the call before it left.
  \<open>NextTarget now index\<close> is a call of \<^verbatim>\<open>nextTarget(index)\<close> made when \<^verbatim>\<open>millis()\<close> reads
  \<open>now\<close>. A run returns the commands of its \<^verbatim>\<open>nextTarget\<close> calls in order, and stops at the
  first call that has no defined result.
\<close>

datatype pattern_class =
  SimpleStroke | TeasingPounding | RoboStroke | HalfnHalf | Deeper | StopNGo | Insist
  | Slammin | Knot

fun new_pattern :: "pattern_class \<Rightarrow> string \<Rightarrow> int \<Rightarrow> int \<Rightarrow> real \<Rightarrow> pattern_object" where
  "new_pattern SimpleStroke str stroke0 depth0 time0 = SimpleStroke_obj (Pattern_new str stroke0 depth0 time0)"
| "new_pattern TeasingPounding str stroke0 depth0 time0 = TeasingPounding_obj (TeasingPounding_new str stroke0 depth0 time0)"
| "new_pattern RoboStroke str stroke0 depth0 time0 = RoboStroke_obj (RoboStroke_new str stroke0 depth0 time0)"
| "new_pattern HalfnHalf str stroke0 depth0 time0 = HalfnHalf_obj (HalfnHalf_new str stroke0 depth0 time0)"
| "new_pattern Deeper str stroke0 depth0 time0 = Deeper_obj (Deeper_new str stroke0 depth0 time0)"
| "new_pattern StopNGo str stroke0 depth0 time0 = StopNGo_obj (StopNGo_new str stroke0 depth0 time0)"
| "new_pattern Insist str stroke0 depth0 time0 = Insist_obj (Insist_new str stroke0 depth0 time0)"
| "new_pattern Slammin str stroke0 depth0 time0 = Slammin_obj (Slammin_new str stroke0 depth0 time0)"
| "new_pattern Knot str stroke0 depth0 time0 = Knot_obj (Knot_new str stroke0 depth0 time0)"

fun class_of :: "pattern_object \<Rightarrow> pattern_class" where
  "class_of (SimpleStroke_obj s) = SimpleStroke"
| "class_of (TeasingPounding_obj s) = TeasingPounding"
| "class_of (RoboStroke_obj s) = RoboStroke"
| "class_of (HalfnHalf_obj s) = HalfnHalf"
| "class_of (Deeper_obj s) = Deeper"
| "class_of (StopNGo_obj s) = StopNGo"
| "class_of (Insist_obj s) = Insist"
| "class_of (Slammin_obj s) = Slammin"
| "class_of (Knot_obj s) = Knot"

fun base :: "pattern_object \<Rightarrow> Pattern" where
  \<comment> \<open>The \<^verbatim>\<open>Pattern\<close> part of an object.\<close>
  "base (SimpleStroke_obj s) = s"
| "base (TeasingPounding_obj s) = Pattern.truncate s"
| "base (RoboStroke_obj s) = Pattern.truncate s"
| "base (HalfnHalf_obj s) = Pattern.truncate s"
| "base (Deeper_obj s) = Pattern.truncate s"
| "base (StopNGo_obj s) = Pattern.truncate s"
| "base (Insist_obj s) = Pattern.truncate s"
| "base (Slammin_obj s) = Pattern.truncate s"
| "base (Knot_obj s) = Pattern.truncate s"

datatype call =
    SetTimeOfStroke real
  | SetStroke int
  | SetDepth int
  | SetSensation real
  | SetSpeedLimit nat nat nat
  | NextTarget nat nat

fun do_call :: "call \<Rightarrow> pattern_object \<Rightarrow> error + (motionParameter list \<times> pattern_object)" where
  "do_call (SetTimeOfStroke t) obj =
     (case setTimeOfStroke t obj of Inl e \<Rightarrow> Inl e | Inr obj' \<Rightarrow> Inr ([], obj'))"
| "do_call (SetStroke k) obj =
     (case setStroke k obj of Inl e \<Rightarrow> Inl e | Inr obj' \<Rightarrow> Inr ([], obj'))"
| "do_call (SetDepth k) obj = Inr ([], setDepth k obj)"
| "do_call (SetSensation x) obj =
     (case setSensation x obj of Inl e \<Rightarrow> Inl e | Inr obj' \<Rightarrow> Inr ([], obj'))"
| "do_call (SetSpeedLimit a b c) obj = Inr ([], setSpeedLimit a b c obj)"
| "do_call (NextTarget now index) obj =
     (case nextTarget now index obj of Inl e \<Rightarrow> Inl e | Inr (mv, obj') \<Rightarrow> Inr ([mv], obj'))"

fun run :: "call list \<Rightarrow> pattern_object \<Rightarrow> error + (motionParameter list \<times> pattern_object)" where
  "run [] obj = Inr ([], obj)"
| "run (c # cs) obj =
     (case do_call c obj of
        Inl e \<Rightarrow> Inl e
      | Inr (out, obj') \<Rightarrow>
          (case run cs obj' of
             Inl e \<Rightarrow> Inl e
           | Inr (outs, obj'') \<Rightarrow> Inr (out @ outs, obj'')))"

definition commands :: "error + (motionParameter list \<times> pattern_object) \<Rightarrow> error + motionParameter list" where
  \<comment> \<open>What the client sees of a run.\<close>
  "commands r = (case r of Inl e \<Rightarrow> Inl e | Inr (outs, obj) \<Rightarrow> Inr outs)"

subsection \<open>Example objects\<close>

definition StopNGo_pausing :: StopNGo where
  \<comment> \<open>A StopNGo with stroke 1000, depth 1000, a cycle of 2 s and sensation 100, whose
      pause was started at 1000 ms.\<close>
  "StopNGo_pausing =
     startDelay 1000 (StopNGo_setSensation 100 (StopNGo_setTimeOfStroke 2
       (Pattern_setDepth 1000 (Pattern_setStroke 1000 (StopNGo_new ''StopNGo'' 0 0 0)))))"

definition targets :: "error + (motionParameter list \<times> pattern_object) \<Rightarrow> error + int list" where
  \<comment> \<open>The target positions of a run's commands.\<close>
  "targets r = (case r of Inl e \<Rightarrow> Inl e | Inr (outs, obj) \<Rightarrow> Inr (map stroke outs))"

definition Deeper_example :: Deeper where
  \<comment> \<open>A Deeper with stroke 1000, depth 1000 and a cycle of 2 s.\<close>
  "Deeper_example =
     Pattern_setDepth 1000 (Pattern_setStroke 1000 (Deeper_setTimeOfStroke 2
       (Deeper_new ''Deeper'' 0 0 0)))"

definition Deeper_target :: "int \<Rightarrow> nat \<Rightarrow> int" where
  \<comment> \<open>The targets of a ramp of 11 strokes of slope 90 below \<open>depth\<close>, by index.\<close>
  "Deeper_target depth i =
     (if i mod 2 \<noteq> 0 then depth - 1000 else depth - 1000 + 90 * (int ((i div 2) mod 11) + 1))"

definition RoboStroke_example :: RoboStroke where
  \<comment> \<open>A RoboStroke with stroke 1000 and depth 1000.\<close>
  "RoboStroke_example =
     Pattern_setDepth 1000 (Pattern_setStroke 1000 (RoboStroke_new ''RoboStroke'' 0 0 0))"

definition configure :: "real \<Rightarrow> int \<Rightarrow> int \<Rightarrow> real \<Rightarrow> call list" where
  \<comment> \<open>The client sets the cycle time, the stroke, the depth and the sensation, in this order.\<close>
  "configure t k d x = [SetTimeOfStroke t, SetStroke k, SetDepth d, SetSensation x]"

definition ticks :: "(nat \<Rightarrow> nat) \<Rightarrow> nat \<Rightarrow> nat \<Rightarrow> call list" where
  \<comment> \<open>\<open>n\<close> \<^verbatim>\<open>nextTarget\<close> calls with the consecutive indices \<open>a, a + 1, ...\<close>, the call with index
      \<open>i\<close> at the time \<open>nows i\<close>.\<close>
  "ticks nows a n = map (\<lambda>i. NextTarget (nows i) i) [a..<a + n]"

definition trapezoid :: "int \<Rightarrow> real \<Rightarrow> int \<Rightarrow> motionParameter" where
  \<comment> \<open>The command of the 1/3, 1/3, 1/3 trapezoid as \<^verbatim>\<open>SimpleStroke::nextTarget\<close> computes it:
      the speed is truncated first, the acceleration is computed from the truncated speed.\<close>
  "trapezoid len T target =
     \<lparr> stroke = target,
       speed = to_int (1.5 * real_of_int len / T),
       acceleration = to_int (3.0 * real_of_int (to_int (1.5 * real_of_int len / T)) / T),
       skip = False \<rparr>"

definition HalfnHalf_command :: "int \<Rightarrow> int \<Rightarrow> real \<Rightarrow> nat \<Rightarrow> motionParameter" where
  \<comment> \<open>What HalfnHalf returns for index \<open>i\<close> of a run of consecutive indices from 0, with
      both times of stroke equal to \<open>T\<close>: a half stroke when \<open>i mod 4 < 2\<close>.\<close>
  "HalfnHalf_command k d T i =
     (let k' = (if i mod 4 < 2 then k sdiv 2 else k)
      in trapezoid k' T (if i mod 2 \<noteq> 0 then d - k else d - k + k'))"


definition StopNGo_completes :: "nat \<Rightarrow> nat \<Rightarrow> StopNGo \<Rightarrow> bool" where
  \<comment> \<open>The call ends a series and starts the pause: the gate is clear, the stroke moves out
      and \<^verbatim>\<open>_strokeIndex >= _strokeSeriesIndex\<close>.\<close>
  "StopNGo_completes now index s =
     (isStillDelayed now s = False \<and> index mod 2 \<noteq> 0 \<and> sg_strokeIndex s \<ge> sg_strokeSeriesIndex s)"

text \<open>
  A client of one StopNGo that counts the inward strokes it was given and writes the count
  down whenever a call ends a series: \<open>series_lengths c calls s\<close> is the list of the lengths
  of the series completed during \<open>calls\<close>, \<open>c\<close> being the strokes counted so far.
  \<open>gate_clear calls s\<close> says that no call of \<open>calls\<close> is made while the delay gate is pending.
\<close>

fun series_lengths :: "nat \<Rightarrow> (nat \<times> nat) list \<Rightarrow> StopNGo \<Rightarrow> error + nat list" where
  "series_lengths c [] s = Inr []"
| "series_lengths c ((now, index) # cs) s =
     (case StopNGo_nextTarget now index s of
        Inl e \<Rightarrow> Inl e
      | Inr (mv, s') \<Rightarrow>
          if skip mv then series_lengths c cs s'
          else if index mod 2 = 0 then series_lengths (c + 1) cs s'
          else if StopNGo_completes now index s then
            (case series_lengths 0 cs s' of Inl e \<Rightarrow> Inl e | Inr ls \<Rightarrow> Inr (c # ls))
          else series_lengths c cs s')"

fun gate_clear :: "(nat \<times> nat) list \<Rightarrow> StopNGo \<Rightarrow> bool" where
  "gate_clear [] s = True"
| "gate_clear ((now, index) # cs) s =
     (isStillDelayed now s = False \<and>
      (case StopNGo_nextTarget now index s of Inl e \<Rightarrow> True | Inr (mv, s') \<Rightarrow> gate_clear cs s'))"

definition triangular :: "nat \<Rightarrow> nat" where
  \<comment> \<open>The sequence 1, 2, 3, 4, 5, 4, 3, 2, 1, 2, ... of the claim, by position.\<close>
  "triangular m = [1, 2, 3, 4, 5, 4, 3, 2] ! (m mod 8)"

definition strokes_upto :: "nat \<Rightarrow> nat" where
  \<comment> \<open>The inward strokes of the first \<open>M\<close> series of that sequence.\<close>
  "strokes_upto M = sum_list (map triangular [0..<M])"

definition timed :: "(nat \<Rightarrow> nat) \<Rightarrow> nat \<Rightarrow> nat \<Rightarrow> (nat \<times> nat) list" where
  \<comment> \<open>\<open>n\<close> calls with the consecutive indices \<open>a, a + 1, ...\<close>, as pairs of clock and index.\<close>
  "timed nows a n = map (\<lambda>i. (nows i, i)) [a..<a + n]"

definition at_series :: "nat \<Rightarrow> nat \<Rightarrow> StopNGo \<Rightarrow> bool" where
  \<comment> \<open>The counters \<open>j\<close> inward strokes into series number \<open>m\<close> (counted from 0).\<close>
  "at_series m j s =
     (p_timeOfStroke s \<noteq> 0 \<and> sg_numberOfStrokes s = 5 \<and>
      sg_strokeSeriesIndex s = int (triangular m) \<and> sg_strokeIndex s = int j \<and> j < triangular m \<and>
      (m mod 8 \<in> {1, 2, 3, 4} \<longrightarrow> sg_countStrokesUp s) \<and>
      (m mod 8 \<in> {5, 6, 7} \<longrightarrow> \<not> sg_countStrokesUp s))"

definition StopNGo_example :: StopNGo where
  \<comment> \<open>A StopNGo with stroke 1000, depth 1000, a cycle of 2 s and sensation -100.\<close>
  "StopNGo_example =
     StopNGo_setSensation (-100) (StopNGo_setTimeOfStroke 2
       (Pattern_setDepth 1000 (Pattern_setStroke 1000 (StopNGo_new ''StopNGo'' 0 0 0))))"

text \<open>
  \<open>is_setter\<close>: every call but \<^verbatim>\<open>nextTarget\<close>. \<open>stale_zero\<close>: an Insist whose last command has
  the speed 0 and whose stored acceleration is 0, as after the constructor.
\<close>

fun is_setter :: "call \<Rightarrow> bool" where
  "is_setter (NextTarget now index) = False"
| "is_setter c = True"

fun stale_zero :: "pattern_object \<Rightarrow> bool" where
  "stale_zero (Insist_obj s) = (speed (p_nextMove s) = 0 \<and> in_acceleration s = 0)"
| "stale_zero obj = False"

text \<open>
  \<open>writes_skip\<close>: the classes whose \<^verbatim>\<open>nextTarget\<close> assigns \<^verbatim>\<open>_nextMove.skip\<close>. \<open>last_move\<close>: the
  \<^verbatim>\<open>_nextMove\<close> of an object. \<open>ready\<close>: the divisors (and the argument of \<^verbatim>\<open>sqrt\<close>) of the
  object's \<^verbatim>\<open>nextTarget\<close> let every call return.
\<close>

fun writes_skip :: "pattern_class \<Rightarrow> bool" where
  "writes_skip StopNGo = True"
| "writes_skip Slammin = True"
| "writes_skip Knot = True"
| "writes_skip cls = False"

definition last_move :: "pattern_object \<Rightarrow> motionParameter" where
  "last_move obj = p_nextMove (base obj)"

fun ready :: "pattern_object \<Rightarrow> bool" where
  "ready (SimpleStroke_obj s) = (p_timeOfStroke s \<noteq> 0)"
| "ready (TeasingPounding_obj s) = (tp_timeOfInStroke s \<noteq> 0 \<and> tp_timeOfOutStroke s \<noteq> 0)"
| "ready (RoboStroke_obj s) =
     ((1 - rs_x s) * p_timeOfStroke s \<noteq> 0 \<and> rs_x s * p_timeOfStroke s \<noteq> 0)"
| "ready (HalfnHalf_obj s) = (hh_timeOfInStroke s \<noteq> 0 \<and> hh_timeOfOutStroke s \<noteq> 0)"
| "ready (Deeper_obj s) = (dp_countStrokesForRamp s \<noteq> 0 \<and> p_timeOfStroke s \<noteq> 0)"
| "ready (StopNGo_obj s) = (p_timeOfStroke s \<noteq> 0)"
| "ready (Insist_obj s) = True"
| "ready (Slammin_obj s) = (p_timeOfStroke s \<noteq> 0 \<and> 0 \<le> 350000 * sl_speed s + 60000)"
| "ready (Knot_obj s) = (p_timeOfStroke s \<noteq> 0 \<and> 0 \<le> 350000 * kn_speed s + 60000)"

text \<open>
  \<open>erase_limits\<close> overwrites the three limits of an object, \<open>erase_call\<close> the arguments of a
  \<^verbatim>\<open>setSpeedLimit\<close> call: two objects, or two lists of calls, that agree after it differ in
  nothing but the values of \<^verbatim>\<open>maxSpeed\<close>, \<^verbatim>\<open>maxAcceleration\<close> and \<^verbatim>\<open>stepsPerMM\<close>.
\<close>

definition erase_limits :: "pattern_object \<Rightarrow> pattern_object" where
  "erase_limits obj = setSpeedLimit 0 0 0 obj"

fun erase_call :: "call \<Rightarrow> call" where
  "erase_call (SetSpeedLimit a b c) = SetSpeedLimit 0 0 0"
| "erase_call c = c"

text \<open>
  A well-formed configuration, read off an object: \<open>0 \<le> stroke \<le> depth\<close>, a positive time of
  stroke, a sensation in [-100, 100], and the fields that the setters derive from these
  are the ones the setters compute (\<open>derived_fields\<close>: the ramp length of Deeper is the
  initial 2 or the one \<^verbatim>\<open>setSensation\<close> sets for the stored sensation; the stroke fraction
  of Insist is the one of the stored sensation, and its real stroke is the initial 0 or
  the one \<^verbatim>\<open>_updateStrokeTiming\<close> computes). \<open>in_range obj target\<close>: the target lies in
  \<open>[depth - stroke, depth]\<close>. \<open>outward_end\<close>: the outward end of the excursion, which for an
  Insist with positive sensation is \<open>depth - _realStroke\<close>.
\<close>

fun derived_fields :: "pattern_object \<Rightarrow> bool" where
  "derived_fields (Deeper_obj s) =
     (dp_countStrokesForRamp s = 2 \<or>
      dp_countStrokesForRamp s = dp_countStrokesForRamp (Deeper_setSensation (p_sensation s) s))"
| "derived_fields (Insist_obj s) =
     (in_strokeFraction s = (100 - \<bar>p_sensation s\<bar>) / 100.0 \<and>
      (in_realStroke s = 0 \<or>
       in_realStroke s = to_int (real_of_int (p_stroke s) * in_strokeFraction s)))"
| "derived_fields obj = True"

definition well_formed :: "pattern_object \<Rightarrow> bool" where
  "well_formed obj =
     (0 \<le> p_stroke (base obj) \<and> p_stroke (base obj) \<le> p_depth (base obj) \<and>
      0 < p_timeOfStroke (base obj) \<and>
      -100 \<le> p_sensation (base obj) \<and> p_sensation (base obj) \<le> 100 \<and>
      derived_fields obj)"



section \<open>Properties\<close>

subsection \<open>Evaluation\<close>

lemmas new_defs =
  Pattern_new_def Pattern.extend_def Pattern.truncate_def
  TeasingPounding_new_def TeasingPounding.fields_def
  RoboStroke_new_def RoboStroke.fields_def
  HalfnHalf_new_def HalfnHalf.fields_def
  Deeper_new_def Deeper.fields_def
  StopNGo_new_def StopNGo.fields_def
  Insist_new_def Insist.fields_def
  Slammin_new_def Slammin.fields_def
  Knot_new_def Knot.fields_def

lemmas base_defs =
  Pattern_setTimeOfStroke_def Pattern_setStroke_def Pattern_setDepth_def
  Pattern_setSensation_def Pattern_setSpeedLimit_def
  startDelay_def updateDelay_def isStillDelayed_def set_move_def


lemma sdiv_numeral [simp]: "(numeral a :: int) sdiv numeral b = numeral a div numeral b"
  by (simp add: signed_divide_int_def)

subsection \<open>StopNGo: the pause\<close>

text \<open>
  C3, as the code has it. \<^verbatim>\<open>StopNGo::setSensation\<close> maps the sensation from [-100, 100] to
  a delay from 100 ms to 10000 ms: sensation 100 sets a pause of 10000 ms and sensation
  -100 a pause of 100 ms (the claim has the two the other way round). A pause started at
  \<open>t0\<close> is pending exactly as long as the clock has not passed \<open>t0\<close> plus the delay. While
  the gate is pending, a \<^verbatim>\<open>nextTarget\<close> call (with a nonzero time of stroke) returns a
  command with \<open>skip = True\<close> and leaves \<^verbatim>\<open>_strokeIndex\<close>, \<^verbatim>\<open>_strokeSeriesIndex\<close> and
  \<^verbatim>\<open>_countStrokesUp\<close> as they were.
\<close>

theorem StopNGo_pause:
  "p_delayInMillis (StopNGo_setSensation 100 s) = 10000 \<and>
   p_delayInMillis (StopNGo_setSensation (-100) s) = 100 \<and>
   isStillDelayed now (startDelay t0 (StopNGo_setSensation 100 s)) = (now \<le> t0 + 10000) \<and>
   isStillDelayed now (startDelay t0 (StopNGo_setSensation (-100) s)) = (now \<le> t0 + 100) \<and>
   (isStillDelayed now s \<and> p_timeOfStroke s \<noteq> 0 \<longrightarrow>
      (\<exists>mv s'. StopNGo_nextTarget now index s = Inr (mv, s') \<and> skip mv = True \<and>
         sg_strokeIndex s' = sg_strokeIndex s \<and>
         sg_strokeSeriesIndex s' = sg_strokeSeriesIndex s \<and>
         sg_countStrokesUp s' = sg_countStrokesUp s))"
  by (auto simp add: StopNGo_setSensation_def base_defs map_long_def to_int_def
      StopNGo_nextTarget_def Let_def)

theorem StopNGo_pause_witness:
  "isStillDelayed 5000 StopNGo_pausing \<and> p_timeOfStroke StopNGo_pausing \<noteq> 0 \<and>
   (\<exists>mv s'. StopNGo_nextTarget 5000 3 StopNGo_pausing = Inr (mv, s') \<and> skip mv = True \<and>
      sg_strokeIndex s' = sg_strokeIndex StopNGo_pausing \<and>
      sg_strokeSeriesIndex s' = sg_strokeSeriesIndex StopNGo_pausing \<and>
      sg_countStrokesUp s' = sg_countStrokesUp StopNGo_pausing)"
proof -
  have pending: "isStillDelayed 5000 StopNGo_pausing \<and> p_timeOfStroke StopNGo_pausing \<noteq> 0"
    by (simp add: StopNGo_pausing_def StopNGo_setSensation_def StopNGo_setTimeOfStroke_def
        base_defs new_defs map_long_def to_int_def)
  with StopNGo_pause [of StopNGo_pausing 5000 0 3] show ?thesis
    by blast
qed

theorem StopNGo_sensation_100_counterexample:
  "p_delayInMillis (StopNGo_setSensation 100 (StopNGo_new ''StopNGo'' 0 0 0)) = 10000 \<and>
   p_delayInMillis (StopNGo_setSensation (-100) (StopNGo_new ''StopNGo'' 0 0 0)) = 100"
  by (simp add: StopNGo_setSensation_def base_defs new_defs map_long_def to_int_def)

subsection \<open>Deeper: the ramp at stroke 1000, sensation 0\<close>

lemma Deeper_setSensation_0:
  "dp_countStrokesForRamp (Deeper_setSensation 0 d) = 11"
  "p_stroke (Deeper_setSensation 0 d) = p_stroke d"
  "p_depth (Deeper_setSensation 0 d) = p_depth d"
  "p_timeOfStroke (Deeper_setSensation 0 d) = p_timeOfStroke d"
  by (simp_all add: Deeper_setSensation_def map_long_def to_int_def)

lemma Deeper_step:
  assumes "dp_countStrokesForRamp s = 11" "p_stroke s = 1000" "p_timeOfStroke s \<noteq> 0"
  shows "\<exists>mv. Deeper_nextTarget i s = Inr (mv, set_move mv i s) \<and>
           stroke mv = Deeper_target (p_depth s) i"
  using assms by (simp add: Deeper_nextTarget_def Deeper_target_def Let_def)

lemma Deeper_run:
  assumes "dp_countStrokesForRamp s = 11" "p_stroke s = 1000" "p_timeOfStroke s \<noteq> 0"
  shows "\<exists>cmds obj'.
           run (map (\<lambda>i. NextTarget (nows i) i) [a..<a + n]) (Deeper_obj s) = Inr (cmds, obj') \<and>
           length cmds = n \<and> (\<forall>j<n. stroke (cmds ! j) = Deeper_target (p_depth s) (a + j))"
  using assms
proof (induction n arbitrary: a s)
  case 0
  then show ?case by simp
next
  case (Suc n)
  from Deeper_step [OF Suc.prems, of a] obtain mv where
    mv: "Deeper_nextTarget a s = Inr (mv, set_move mv a s)"
        "stroke mv = Deeper_target (p_depth s) a" by blast
  let ?s = "set_move mv a s"
  have "dp_countStrokesForRamp ?s = 11" "p_stroke ?s = 1000" "p_timeOfStroke ?s \<noteq> 0"
    using Suc.prems by (simp_all add: set_move_def)
  from Suc.IH [OF this, of "Suc a"] obtain cmds obj' where
    rest: "run (map (\<lambda>i. NextTarget (nows i) i) [Suc a..<Suc a + n]) (Deeper_obj ?s)
             = Inr (cmds, obj')"
          "length cmds = n"
          "\<forall>j<n. stroke (cmds ! j) = Deeper_target (p_depth ?s) (Suc a + j)"
    by blast
  have upt: "[a..<a + Suc n] = a # [Suc a..<Suc a + n]"
    by (simp add: upt_conv_Cons)
  have "run (map (\<lambda>i. NextTarget (nows i) i) [a..<a + Suc n]) (Deeper_obj s)
          = Inr (mv # cmds, obj')"
    unfolding upt using mv(1) rest(1) by (simp add: returned_def)
  moreover have "\<forall>j<Suc n. stroke ((mv # cmds) ! j) = Deeper_target (p_depth s) (a + j)"
  proof (intro allI impI)
    fix j assume "j < Suc n"
    then show "stroke ((mv # cmds) ! j) = Deeper_target (p_depth s) (a + j)"
      using mv(2) rest(3) by (cases j) (simp_all add: set_move_def)
  qed
  ultimately show ?case using rest(2) by simp
qed

text \<open>
  C7, as the code has it. With stroke 1000, \<^verbatim>\<open>setSensation(0)\<close> sets
  \<^verbatim>\<open>_countStrokesForRamp\<close> to 11, and the slope is the integer quotient 1000 / 11 = 90. Of
  23 consecutive calls with the indices 0 to 22, the 11 inward strokes (indices 0, 2, ...,
  20) have the targets depth - 1000 + 90 (k + 1): they rise strictly from depth - 910 to
  depth - 10, which is 10 short of depth, and the next inward stroke (index 22) is back at
  depth - 910.
\<close>

theorem Deeper_ramp:
  assumes "p_timeOfStroke d \<noteq> 0" and "p_stroke d = 1000"
  shows "dp_countStrokesForRamp (Deeper_setSensation 0 d) = 11 \<and>
     (\<exists>cmds obj'.
        run (map (\<lambda>i. NextTarget (nows i) i) [0..<23]) (Deeper_obj (Deeper_setSensation 0 d))
          = Inr (cmds, obj') \<and>
        length cmds = 23 \<and>
        (\<forall>k<11. stroke (cmds ! (2 * k)) = p_depth d - 1000 + 90 * (int k + 1)) \<and>
        (\<forall>k<10. stroke (cmds ! (2 * k)) < stroke (cmds ! (2 * k + 2))) \<and>
        stroke (cmds ! 0) = p_depth d - 910 \<and>
        stroke (cmds ! 20) = p_depth d - 10 \<and>
        stroke (cmds ! 22) = p_depth d - 910)"
proof -
  let ?s = "Deeper_setSensation 0 d"
  have s: "dp_countStrokesForRamp ?s = 11" "p_stroke ?s = 1000" "p_timeOfStroke ?s \<noteq> 0"
    using assms by (simp_all add: Deeper_setSensation_0)
  from Deeper_run [OF s, of nows 0 23] obtain cmds obj' where
    r: "run (map (\<lambda>i. NextTarget (nows i) i) [0..<23]) (Deeper_obj ?s) = Inr (cmds, obj')"
       "length cmds = 23" "\<forall>j<23. stroke (cmds ! j) = Deeper_target (p_depth d) j"
    by (auto simp add: Deeper_setSensation_0)
  have inward: "stroke (cmds ! (2 * k)) = p_depth d - 1000 + 90 * (int k + 1)" if "k < 11" for k
    using r(3) that by (simp add: Deeper_target_def)
  have next_one: "stroke (cmds ! (2 * k + 2)) = p_depth d - 1000 + 90 * (int k + 2)"
    if "k < 10" for k
    using inward [of "Suc k"] that by simp
  have last: "stroke (cmds ! 22) = p_depth d - 910"
    using r(3) by (simp add: Deeper_target_def)
  have "stroke (cmds ! 0) = p_depth d - 910" "stroke (cmds ! 20) = p_depth d - 10"
    using inward [of 0] inward [of 10] by simp_all
  with r(1,2) inward next_one last s(1) show ?thesis
    by auto
qed

theorem Deeper_ramp_witness:
  "p_timeOfStroke Deeper_example \<noteq> 0 \<and> p_stroke Deeper_example = 1000 \<and>
   p_depth Deeper_example = 1000 \<and>
   dp_countStrokesForRamp (Deeper_setSensation 0 Deeper_example) = 11 \<and>
   (\<exists>cmds obj'.
      run (map (\<lambda>i. NextTarget 0 i) [0..<23]) (Deeper_obj (Deeper_setSensation 0 Deeper_example))
        = Inr (cmds, obj') \<and>
      stroke (cmds ! 0) = 90 \<and> stroke (cmds ! 20) = 990 \<and> stroke (cmds ! 22) = 90)"
proof -
  have ex: "p_timeOfStroke Deeper_example \<noteq> 0" "p_stroke Deeper_example = 1000"
    "p_depth Deeper_example = 1000"
    by (simp_all add: Deeper_example_def Deeper_setTimeOfStroke_def base_defs new_defs)
  from Deeper_ramp [OF ex(1,2), of "\<lambda>i. 0"] ex show ?thesis
    by auto
qed

theorem Deeper_ramp_counterexample:
  "targets (run ([SetTimeOfStroke 2, SetStroke 1000, SetDepth 1000, SetSensation 0]
                 @ map (NextTarget 0) [0..<23])
              (new_pattern Deeper ''Deeper'' 0 0 0))
   = Inr [90, 0, 180, 0, 270, 0, 360, 0, 450, 0, 540, 0, 630, 0, 720, 0, 810, 0, 900, 0,
          990, 0, 90]"
  by (simp add: upt_rec targets_def returned_def Deeper_nextTarget_def Deeper_setSensation_def
      Deeper_setTimeOfStroke_def base_defs new_defs map_long_def to_int_def Let_def)

subsection \<open>RoboStroke: sensation and profile\<close>

lemma fscale_linear:
  "fscale a b p q v 0 = p + max 0 (min 1 ((v - a) / (b - a))) * (q - p)"
  by (simp add: fscale_def)

lemma RoboStroke_x_nonneg:
  "0 \<le> sens \<Longrightarrow> rs_x (RoboStroke_setSensation sens s) = 1/3 + max 0 (min 1 (sens / 100)) * (1/6)"
  by (simp add: RoboStroke_setSensation_def fscale_linear)

lemma RoboStroke_x_neg:
  "sens < 0 \<Longrightarrow> rs_x (RoboStroke_setSensation sens s) = 1/3 - max 0 (min 1 (- sens / 100)) * (17/60)"
  by (simp add: RoboStroke_setSensation_def fscale_linear)

lemma RoboStroke_x_range:
  "1/20 \<le> rs_x (RoboStroke_setSensation sens s) \<and> rs_x (RoboStroke_setSensation sens s) \<le> 1/2"
proof (cases "0 \<le> sens")
  case True
  then show ?thesis by (simp add: RoboStroke_x_nonneg max_def min_def)
next
  case False
  then show ?thesis by (simp add: RoboStroke_x_neg max_def min_def)
qed

lemma RoboStroke_x_mono:
  assumes "a \<le> b"
  shows "rs_x (RoboStroke_setSensation a s) \<le> rs_x (RoboStroke_setSensation b s)"
proof -
  consider "0 \<le> a" | "a < 0" "b < 0" | "a < 0" "0 \<le> b" by linarith
  then show ?thesis
  proof cases
    case 1
    with assms show ?thesis by (simp add: RoboStroke_x_nonneg max_def min_def)
  next
    case 2
    with assms show ?thesis by (simp add: RoboStroke_x_neg max_def min_def)
  next
    case 3
    then show ?thesis by (simp add: RoboStroke_x_nonneg RoboStroke_x_neg max_def min_def)
  qed
qed

text \<open>
  C4, as the code has it. \<^verbatim>\<open>RoboStroke::setSensation\<close> sets \<^verbatim>\<open>_x\<close> to 1/3 at sensation 0 and
  keeps it in [0.05, 0.5] for every sensation. The direction is the reverse of the one the
  claim and the class's own comment give: \<^verbatim>\<open>_x\<close> grows with the sensation, to 0.5 (the
  triangular profile) at sensation 100 and down to 0.05 (nearly constant speed) at
  sensation -100. After \<^verbatim>\<open>setTimeOfStroke(t)\<close> with a nonzero \<open>t\<close>, \<^verbatim>\<open>nextTarget\<close> returns the
  speed stroke / ((1 - x) halfTime) and the acceleration speed / (x halfTime), the latter
  from the speed before its truncation, each truncated to an integer.
\<close>

theorem RoboStroke_profile:
  "rs_x (RoboStroke_setSensation 0 s) = 1/3 \<and>
   rs_x (RoboStroke_setSensation 100 s) = 1/2 \<and>
   rs_x (RoboStroke_setSensation (-100) s) = 1/20 \<and>
   1/20 \<le> rs_x (RoboStroke_setSensation sens s) \<and>
   rs_x (RoboStroke_setSensation sens s) \<le> 1/2 \<and>
   (a \<le> b \<longrightarrow> rs_x (RoboStroke_setSensation a s) \<le> rs_x (RoboStroke_setSensation b s)) \<and>
   (t \<noteq> 0 \<longrightarrow>
      (let s' = RoboStroke_setSensation sens (RoboStroke_setTimeOfStroke t s);
           halfTime = t / 2;
           v = real_of_int (p_stroke s) / ((1 - rs_x s') * halfTime)
       in \<exists>mv s''. RoboStroke_nextTarget index s' = Inr (mv, s'') \<and>
            speed mv = to_int v \<and> acceleration mv = to_int (v / (rs_x s' * halfTime))))"
proof -
  have x: "1/20 \<le> rs_x (RoboStroke_setSensation sens s')" "rs_x (RoboStroke_setSensation sens s') \<le> 1/2" for s' :: RoboStroke
    using RoboStroke_x_range [of sens s'] by simp_all
  have call: "\<exists>mv s''. RoboStroke_nextTarget index s' = Inr (mv, s'') \<and>
            speed mv = to_int (real_of_int (p_stroke s) / ((1 - rs_x s') * (t / 2))) \<and>
            acceleration mv = to_int (real_of_int (p_stroke s) / ((1 - rs_x s') * (t / 2)) / (rs_x s' * (t / 2)))"
    if "t \<noteq> 0" and s': "s' = RoboStroke_setSensation sens (RoboStroke_setTimeOfStroke t s)" for s'
  proof -
    have nz: "rs_x s' \<noteq> 0" "1 - rs_x s' \<noteq> 0"
      using x [of "RoboStroke_setTimeOfStroke t s"] unfolding s' by simp_all
    have cfg: "p_timeOfStroke s' = t / 2" "p_stroke s' = p_stroke s"
      unfolding s' by (simp_all add: RoboStroke_setSensation_def RoboStroke_setTimeOfStroke_def Let_def)
    show ?thesis using that(1) nz
      by (simp add: RoboStroke_nextTarget_def Let_def cfg)
  qed
  have at_0: "rs_x (RoboStroke_setSensation 0 s) = 1/3"
    and at_100: "rs_x (RoboStroke_setSensation 100 s) = 1/2"
    and at_m100: "rs_x (RoboStroke_setSensation (-100) s) = 1/20"
    by (simp_all add: RoboStroke_x_nonneg RoboStroke_x_neg)
  have formula: "t \<noteq> 0 \<longrightarrow>
      (let s' = RoboStroke_setSensation sens (RoboStroke_setTimeOfStroke t s);
           halfTime = t / 2;
           v = real_of_int (p_stroke s) / ((1 - rs_x s') * halfTime)
       in \<exists>mv s''. RoboStroke_nextTarget index s' = Inr (mv, s'') \<and>
            speed mv = to_int v \<and> acceleration mv = to_int (v / (rs_x s' * halfTime)))"
    unfolding Let_def using call [OF _ refl] by blast
  from at_0 at_100 at_m100 x [of s] RoboStroke_x_mono [of a b s] formula show ?thesis
    by blast
qed

theorem RoboStroke_profile_witness:
  "(50::real) \<le> 100 \<and> (2::real) \<noteq> 0 \<and>
   rs_x (RoboStroke_setSensation 100 RoboStroke_example) = 1/2 \<and>
   rs_x (RoboStroke_setSensation (-100) RoboStroke_example) = 1/20 \<and>
   rs_x (RoboStroke_setSensation 50 RoboStroke_example)
      \<le> rs_x (RoboStroke_setSensation 100 RoboStroke_example) \<and>
   (\<exists>mv s''. RoboStroke_nextTarget 0
        (RoboStroke_setSensation 0 (RoboStroke_setTimeOfStroke 2 RoboStroke_example))
        = Inr (mv, s'') \<and> speed mv = 1500 \<and> acceleration mv = 4500)"
  using RoboStroke_profile [of RoboStroke_example 0 50 100 2 0]
  by (simp add: Let_def RoboStroke_example_def RoboStroke_setSensation_def
      RoboStroke_setTimeOfStroke_def fscale_linear base_defs new_defs to_int_def)

subsection \<open>Sensation 0: TeasingPounding, HalfnHalf and RoboStroke against SimpleStroke\<close>

lemma run_append:
  "run (cs @ ds) obj =
     (case run cs obj of
        Inl e \<Rightarrow> Inl e
      | Inr (out, obj') \<Rightarrow>
          (case run ds obj' of Inl e \<Rightarrow> Inl e | Inr (outs, obj'') \<Rightarrow> Inr (out @ outs, obj'')))"
  by (induction cs arbitrary: obj) (auto split: sum.splits)





lemma fscale_at_min: "a < b \<Longrightarrow> fscale a b p q a 0 = p"
  by (simp add: fscale_def)





lemma skip_trapezoid [simp]: "skip (trapezoid len T target) = False"
  and stroke_trapezoid [simp]: "stroke (trapezoid len T target) = target"
  by (simp_all add: trapezoid_def)



lemma skip_HalfnHalf_command [simp]: "skip (HalfnHalf_command k d T i) = False"
  by (simp add: HalfnHalf_command_def Let_def)

lemma mod4_cases: "(i::nat) mod 4 = 0 \<or> i mod 4 = 1 \<or> i mod 4 = 2 \<or> i mod 4 = 3"
  by presburger








lemma RoboStroke_acceleration_example:
  "commands (run (configure 2 1 1 0 @ [NextTarget 0 0])
               (new_pattern RoboStroke ''RoboStroke'' 0 0 0))
     = Inr [\<lparr>stroke = 1, speed = 1, acceleration = 4, skip = False\<rparr>] \<and>
   commands (run (configure 2 1 1 0 @ [NextTarget 0 0])
               (new_pattern SimpleStroke ''SimpleStroke'' 0 0 0))
     = Inr [\<lparr>stroke = 1, speed = 1, acceleration = 3, skip = False\<rparr>]"
  by (simp add: commands_def configure_def returned_def
      RoboStroke_nextTarget_def RoboStroke_setTimeOfStroke_def RoboStroke_setSensation_def
      SimpleStroke_nextTarget_def SimpleStroke_setTimeOfStroke_def
      fscale_at_min Let_def base_defs new_defs to_int_def)

subsection \<open>StopNGo: the lengths of the series\<close>

lemma mod8_cases:
  "(m::nat) mod 8 = 0 \<or> m mod 8 = 1 \<or> m mod 8 = 2 \<or> m mod 8 = 3 \<or> m mod 8 = 4 \<or>
   m mod 8 = 5 \<or> m mod 8 = 6 \<or> m mod 8 = 7"
  by presburger

lemma triangular_pos: "0 < triangular m"
  using mod8_cases [of m] by (auto simp add: triangular_def)

lemma timed_Suc: "timed nows a (Suc n) = (nows a, a) # timed nows (Suc a) n"
proof -
  have "[a..<a + Suc n] = a # [Suc a..<Suc a + n]" by (simp add: upt_conv_Cons)
  then show ?thesis unfolding timed_def by simp
qed

lemma StopNGo_inward:
  assumes "at_series m j s" "i mod 2 = 0" "isStillDelayed now s = False"
  shows "\<exists>mv s'. StopNGo_nextTarget now i s = Inr (mv, s') \<and> skip mv = False \<and>
           p_timeOfStroke s' = p_timeOfStroke s \<and> sg_numberOfStrokes s' = 5 \<and>
           sg_strokeSeriesIndex s' = int (triangular m) \<and> sg_strokeIndex s' = int (Suc j) \<and>
           sg_countStrokesUp s' = sg_countStrokesUp s \<and>
           p_startDelayMillis s' = p_startDelayMillis s \<and> p_delayInMillis s' = p_delayInMillis s"
  using assms by (simp add: at_series_def StopNGo_nextTarget_def Let_def set_move_def)

lemma StopNGo_outward_within:
  assumes "p_timeOfStroke s \<noteq> 0" "i mod 2 \<noteq> 0" "isStillDelayed now s = False"
    "sg_strokeIndex s < sg_strokeSeriesIndex s"
  shows "\<exists>mv. StopNGo_nextTarget now i s = Inr (mv, set_move mv i s) \<and> skip mv = False"
  using assms by (simp add: StopNGo_nextTarget_def Let_def)

lemma StopNGo_outward_done:
  assumes "p_timeOfStroke s \<noteq> 0" "i mod 2 \<noteq> 0" "isStillDelayed now s = False"
    "sg_strokeIndex s \<ge> sg_strokeSeriesIndex s"
  shows "\<exists>mv. StopNGo_nextTarget now i s = Inr (mv, set_move mv i (StopNGo_seriesDone now s)) \<and>
           skip mv = False"
  using assms by (simp add: StopNGo_nextTarget_def Let_def)

lemma triangular_table:
  "m mod 8 = 0 \<Longrightarrow> triangular m = 1 \<and> triangular (Suc m) = 2 \<and> Suc m mod 8 = 1"
  "m mod 8 = 1 \<Longrightarrow> triangular m = 2 \<and> triangular (Suc m) = 3 \<and> Suc m mod 8 = 2"
  "m mod 8 = 2 \<Longrightarrow> triangular m = 3 \<and> triangular (Suc m) = 4 \<and> Suc m mod 8 = 3"
  "m mod 8 = 3 \<Longrightarrow> triangular m = 4 \<and> triangular (Suc m) = 5 \<and> Suc m mod 8 = 4"
  "m mod 8 = 4 \<Longrightarrow> triangular m = 5 \<and> triangular (Suc m) = 4 \<and> Suc m mod 8 = 5"
  "m mod 8 = 5 \<Longrightarrow> triangular m = 4 \<and> triangular (Suc m) = 3 \<and> Suc m mod 8 = 6"
  "m mod 8 = 6 \<Longrightarrow> triangular m = 3 \<and> triangular (Suc m) = 2 \<and> Suc m mod 8 = 7"
  "m mod 8 = 7 \<Longrightarrow> triangular m = 2 \<and> triangular (Suc m) = 1 \<and> Suc m mod 8 = 0"
  by (simp_all add: triangular_def mod_Suc)

lemma StopNGo_seriesDone_fields:
  "p_timeOfStroke (set_move mv i (StopNGo_seriesDone now s)) = p_timeOfStroke s"
  "sg_numberOfStrokes (set_move mv i (StopNGo_seriesDone now s)) = sg_numberOfStrokes s"
  "sg_strokeIndex (set_move mv i (StopNGo_seriesDone now s)) = 0"
  "sg_countStrokesUp (set_move mv i (StopNGo_seriesDone now s))
     = (if sg_strokeSeriesIndex s \<le> 1 then True
        else if sg_strokeSeriesIndex s \<ge> sg_numberOfStrokes s then False
        else sg_countStrokesUp s)"
  "sg_strokeSeriesIndex (set_move mv i (StopNGo_seriesDone now s))
     = (if sg_countStrokesUp (set_move mv i (StopNGo_seriesDone now s))
        then sg_strokeSeriesIndex s + 1 else sg_strokeSeriesIndex s - 1)"
  by (simp_all add: StopNGo_seriesDone_def Let_def set_move_def startDelay_def)

lemma StopNGo_seriesDone_next:
  assumes "p_timeOfStroke s \<noteq> 0" "sg_numberOfStrokes s = 5"
    "sg_strokeSeriesIndex s = int (triangular m)"
    "m mod 8 \<in> {1, 2, 3, 4} \<longrightarrow> sg_countStrokesUp s"
    "m mod 8 \<in> {5, 6, 7} \<longrightarrow> \<not> sg_countStrokesUp s"
  shows "at_series (Suc m) 0 (set_move mv i (StopNGo_seriesDone now s))"
proof -
  let ?s = "set_move mv i (StopNGo_seriesDone now s)"
  note f = StopNGo_seriesDone_fields [of mv i now s]
  from mod8_cases [of m] have
    "sg_strokeSeriesIndex ?s = int (triangular (Suc m)) \<and>
     (Suc m mod 8 \<in> {1, 2, 3, 4} \<longrightarrow> sg_countStrokesUp ?s) \<and>
     (Suc m mod 8 \<in> {5, 6, 7} \<longrightarrow> \<not> sg_countStrokesUp ?s)"
  proof (elim disjE)
    assume r: "m mod 8 = 0"
    show ?thesis using triangular_table(1) [OF r] assms(2-5) r by (simp add: f)
  next
    assume r: "m mod 8 = 1"
    show ?thesis using triangular_table(2) [OF r] assms(2-5) r by (simp add: f)
  next
    assume r: "m mod 8 = 2"
    show ?thesis using triangular_table(3) [OF r] assms(2-5) r by (simp add: f)
  next
    assume r: "m mod 8 = 3"
    show ?thesis using triangular_table(4) [OF r] assms(2-5) r by (simp add: f)
  next
    assume r: "m mod 8 = 4"
    show ?thesis using triangular_table(5) [OF r] assms(2-5) r by (simp add: f)
  next
    assume r: "m mod 8 = 5"
    show ?thesis using triangular_table(6) [OF r] assms(2-5) r by (simp add: f)
  next
    assume r: "m mod 8 = 6"
    show ?thesis using triangular_table(7) [OF r] assms(2-5) r by (simp add: f)
  next
    assume r: "m mod 8 = 7"
    show ?thesis using triangular_table(8) [OF r] assms(2-5) r by (simp add: f)
  qed
  then show ?thesis
    using assms(1,2) triangular_pos [of "Suc m"] by (simp add: at_series_def f(1-3))
qed

lemma StopNGo_pair:
  assumes inv: "at_series m j s" and even: "a mod 2 = 0"
    and clear: "gate_clear ((t1, a) # (t2, Suc a) # cs) s"
  shows "\<exists>s2. gate_clear cs s2 \<and>
           (if Suc j < triangular m
            then at_series m (Suc j) s2 \<and>
                 series_lengths j ((t1, a) # (t2, Suc a) # cs) s = series_lengths (Suc j) cs s2
            else at_series (Suc m) 0 s2 \<and>
                 series_lengths j ((t1, a) # (t2, Suc a) # cs) s
                   = (case series_lengths 0 cs s2 of
                        Inl e \<Rightarrow> Inl e | Inr ls \<Rightarrow> Inr (triangular m # ls)))"
proof -
  from clear have c1: "isStillDelayed t1 s = False" by simp
  from StopNGo_inward [OF inv even c1] obtain mv1 s1 where
    one: "StopNGo_nextTarget t1 a s = Inr (mv1, s1)" "skip mv1 = False"
      "p_timeOfStroke s1 = p_timeOfStroke s" "sg_numberOfStrokes s1 = 5"
      "sg_strokeSeriesIndex s1 = int (triangular m)" "sg_strokeIndex s1 = int (Suc j)"
      "sg_countStrokesUp s1 = sg_countStrokesUp s" by blast
  from clear one(1) have clear1: "gate_clear ((t2, Suc a) # cs) s1" by simp
  then have c2: "isStillDelayed t2 s1 = False" by simp
  have T1: "p_timeOfStroke s1 \<noteq> 0" using inv one(3) by (simp add: at_series_def)
  have odd: "Suc a mod 2 \<noteq> 0" using even by presburger
  have first: "series_lengths j ((t1, a) # (t2, Suc a) # cs) s
                 = series_lengths (Suc j) ((t2, Suc a) # cs) s1"
    using one(1,2) even by simp
  show ?thesis
  proof (cases "Suc j < triangular m")
    case True
    then have lt: "sg_strokeIndex s1 < sg_strokeSeriesIndex s1" using one(5,6) by simp
    from StopNGo_outward_within [OF T1 odd c2 lt] obtain mv2 where
      two: "StopNGo_nextTarget t2 (Suc a) s1 = Inr (mv2, set_move mv2 (Suc a) s1)"
        "skip mv2 = False" by blast
    let ?s2 = "set_move mv2 (Suc a) s1"
    have "gate_clear cs ?s2" using clear1 two(1) by simp
    moreover have "at_series m (Suc j) ?s2"
      using inv one(3-7) True by (simp add: at_series_def set_move_def)
    moreover have "series_lengths (Suc j) ((t2, Suc a) # cs) s1 = series_lengths (Suc j) cs ?s2"
      using two odd lt c2 by (simp add: StopNGo_completes_def)
    ultimately show ?thesis using True first by auto
  next
    case False
    with inv have eq: "Suc j = triangular m" by (simp add: at_series_def)
    then have ge: "sg_strokeIndex s1 \<ge> sg_strokeSeriesIndex s1" using one(5,6) by simp
    from StopNGo_outward_done [OF T1 odd c2 ge] obtain mv2 where
      two: "StopNGo_nextTarget t2 (Suc a) s1
              = Inr (mv2, set_move mv2 (Suc a) (StopNGo_seriesDone t2 s1))"
        "skip mv2 = False" by blast
    let ?s2 = "set_move mv2 (Suc a) (StopNGo_seriesDone t2 s1)"
    have "gate_clear cs ?s2" using clear1 two(1) by simp
    moreover have "at_series (Suc m) 0 ?s2"
      using StopNGo_seriesDone_next [OF T1 one(4,5), of mv2 "Suc a" t2] inv one(7)
      by (simp add: at_series_def)
    moreover have "series_lengths (Suc j) ((t2, Suc a) # cs) s1
        = (case series_lengths 0 cs ?s2 of
             Inl e \<Rightarrow> Inl e | Inr ls \<Rightarrow> Inr (triangular m # ls))"
      using two odd ge c2 eq by (simp add: StopNGo_completes_def)
    ultimately show ?thesis using False first by auto
  qed
qed

lemma timed_pair:
  "timed nows a (2 * Suc P) = (nows a, a) # (nows (Suc a), Suc a) # timed nows (Suc (Suc a)) (2 * P)"
  by (simp add: timed_Suc)

lemma series_run:
  assumes "at_series m j s" "a mod 2 = 0" "m < M"
    "P = triangular m - j + sum_list (map triangular [Suc m..<M])"
    "gate_clear (timed nows a (2 * P)) s"
  shows "series_lengths j (timed nows a (2 * P)) s = Inr (map triangular [m..<M])"
  using assms
proof (induction P arbitrary: m j s a)
  case 0
  then show ?case by (simp add: at_series_def)
next
  case (Suc P)
  have even2: "Suc (Suc a) mod 2 = 0" using Suc.prems(2) by presburger
  from StopNGo_pair [OF Suc.prems(1,2) Suc.prems(5) [unfolded timed_pair]] obtain s2 where
    s2: "gate_clear (timed nows (Suc (Suc a)) (2 * P)) s2"
      "if Suc j < triangular m
       then at_series m (Suc j) s2 \<and>
            series_lengths j (timed nows a (2 * Suc P)) s
              = series_lengths (Suc j) (timed nows (Suc (Suc a)) (2 * P)) s2
       else at_series (Suc m) 0 s2 \<and>
            series_lengths j (timed nows a (2 * Suc P)) s
              = (case series_lengths 0 (timed nows (Suc (Suc a)) (2 * P)) s2 of
                   Inl e \<Rightarrow> Inl e | Inr ls \<Rightarrow> Inr (triangular m # ls))"
    unfolding timed_pair by blast
  have upt: "[m..<M] = m # [Suc m..<M]" using Suc.prems(3) by (simp add: upt_conv_Cons)
  show ?case
  proof (cases "Suc j < triangular m")
    case True
    with s2(2) have inv: "at_series m (Suc j) s2"
      and eq: "series_lengths j (timed nows a (2 * Suc P)) s
                 = series_lengths (Suc j) (timed nows (Suc (Suc a)) (2 * P)) s2" by simp_all
    have P: "P = triangular m - Suc j + sum_list (map triangular [Suc m..<M])"
      using Suc.prems(4) True by simp
    from Suc.IH [OF inv even2 Suc.prems(3) P s2(1)] eq show ?thesis by simp
  next
    case False
    with Suc.prems(1) have last: "Suc j = triangular m" by (simp add: at_series_def)
    from False s2(2) have inv: "at_series (Suc m) 0 s2"
      and eq: "series_lengths j (timed nows a (2 * Suc P)) s
                 = (case series_lengths 0 (timed nows (Suc (Suc a)) (2 * P)) s2 of
                      Inl e \<Rightarrow> Inl e | Inr ls \<Rightarrow> Inr (triangular m # ls))" by simp_all
    have P: "P = sum_list (map triangular [Suc m..<M])"
      using Suc.prems(4) last by simp
    show ?thesis
    proof (cases "Suc m < M")
      case True
      then have "[Suc m..<M] = Suc m # [Suc (Suc m)..<M]" by (simp add: upt_conv_Cons)
      with P have P': "P = triangular (Suc m) - 0 + sum_list (map triangular [Suc (Suc m)..<M])"
        by simp
      from Suc.IH [OF inv even2 True P' s2(1)] eq upt show ?thesis by simp
    next
      case False
      with Suc.prems(3) have M: "M = Suc m" by simp
      with P have "P = 0" by simp
      with eq M show ?thesis by (simp add: timed_def)
    qed
  qed
qed

lemma strokes_upto_Suc: "strokes_upto (Suc M) = triangular 0 - 0 + sum_list (map triangular [Suc 0..<Suc M])"
proof -
  have "[0..<Suc M] = 0 # [Suc 0..<Suc M]" by (simp add: upt_conv_Cons)
  then show ?thesis unfolding strokes_upto_def by simp
qed

text \<open>
  C6. A StopNGo with its initial counters (series index 1, stroke index 0, 5 strokes at
  most) and a nonzero time of stroke is called with the consecutive indices 0, 1, 2, ...,
  never while its delay gate is pending. After the \<open>2 * strokes_upto M\<close> calls that the first
  \<open>M\<close> series take, the lengths of the completed series are the first \<open>M\<close> members of the
  triangular sequence 1, 2, 3, 4, 5, 4, 3, 2, 1, 2, ... (\<open>triangular\<close>, of period 8), for
  every \<open>M\<close>.
\<close>

theorem StopNGo_triangular:
  assumes "p_timeOfStroke s \<noteq> 0" "sg_numberOfStrokes s = 5" "sg_strokeSeriesIndex s = 1"
    "sg_strokeIndex s = 0"
    and "gate_clear (timed nows 0 (2 * strokes_upto M)) s"
  shows "series_lengths 0 (timed nows 0 (2 * strokes_upto M)) s = Inr (map triangular [0..<M])"
proof (cases M)
  case 0
  then show ?thesis by (simp add: strokes_upto_def timed_def)
next
  case (Suc M')
  have inv: "at_series 0 0 s"
    using assms(1-4) by (simp add: at_series_def triangular_def)
  from series_run [OF inv _ _ strokes_upto_Suc [of M'], of 0 nows] assms(5) Suc
  show ?thesis by simp
qed

lemma triangular_first_ten: "map triangular [0..<10] = [1, 2, 3, 4, 5, 4, 3, 2, 1, 2]"
  by (simp add: triangular_def upt_rec)

lemma strokes_upto_3: "2 * strokes_upto 3 = 12"
  by (simp add: strokes_upto_def triangular_def upt_rec)

lemma StopNGo_example_clear:
  "gate_clear (timed (\<lambda>i. 1000 * (i + 1)) 0 12) StopNGo_example"
  by (simp add: timed_def upt_rec StopNGo_example_def StopNGo_nextTarget_def
      StopNGo_seriesDone_def StopNGo_setSensation_def StopNGo_setTimeOfStroke_def
      map_long_def to_int_def Let_def base_defs new_defs)

theorem StopNGo_triangular_witness:
  "p_timeOfStroke StopNGo_example \<noteq> 0 \<and> sg_numberOfStrokes StopNGo_example = 5 \<and>
   sg_strokeSeriesIndex StopNGo_example = 1 \<and> sg_strokeIndex StopNGo_example = 0 \<and>
   gate_clear (timed (\<lambda>i. 1000 * (i + 1)) 0 (2 * strokes_upto 3)) StopNGo_example \<and>
   series_lengths 0 (timed (\<lambda>i. 1000 * (i + 1)) 0 (2 * strokes_upto 3)) StopNGo_example
     = Inr [1, 2, 3]"
proof -
  have f: "p_timeOfStroke StopNGo_example \<noteq> 0" "sg_numberOfStrokes StopNGo_example = 5"
    "sg_strokeSeriesIndex StopNGo_example = 1" "sg_strokeIndex StopNGo_example = 0"
    by (simp_all add: StopNGo_example_def StopNGo_setSensation_def StopNGo_setTimeOfStroke_def
        base_defs new_defs)
  have c: "gate_clear (timed (\<lambda>i. 1000 * (i + 1)) 0 (2 * strokes_upto 3)) StopNGo_example"
    unfolding strokes_upto_3 by (rule StopNGo_example_clear)
  have "map triangular [0..<3] = [1, 2, 3]"
    by (simp add: triangular_def upt_rec)
  with StopNGo_triangular [OF f c] f c show ?thesis by simp
qed

subsection \<open>Insist: the stored acceleration\<close>

lemma Insist_updateStrokeTiming_acceleration:
  assumes "Insist_updateStrokeTiming s = Inr s'"
  shows "in_acceleration s'
           = to_int (3.0 * real_of_int (speed (p_nextMove s)) / (p_timeOfStroke s' * in_strokeFraction s'))
         \<and> in_speed s' = to_int (1.5 * real_of_int (p_stroke s') / p_timeOfStroke s')
         \<and> p_nextMove s' = p_nextMove s"
  using assms by (auto simp add: Insist_updateStrokeTiming_def Let_def split: if_splits)

lemma Insist_setter_acceleration:
  assumes "setStroke k (Insist_obj s) = Inr (Insist_obj s') \<or>
           setTimeOfStroke t (Insist_obj s) = Inr (Insist_obj s') \<or>
           setSensation x (Insist_obj s) = Inr (Insist_obj s')"
  shows "in_acceleration s'
           = to_int (3.0 * real_of_int (speed (p_nextMove s)) / (p_timeOfStroke s' * in_strokeFraction s'))
         \<and> in_speed s' = to_int (1.5 * real_of_int (p_stroke s') / p_timeOfStroke s')
         \<and> p_nextMove s' = p_nextMove s"
proof -
  from assms obtain s0 where "Insist_updateStrokeTiming s0 = Inr s'" "p_nextMove s0 = p_nextMove s"
    by (auto simp add: updated_def Insist_setStroke_def Insist_setTimeOfStroke_def
        Insist_setSensation_def Let_def split: sum.splits)
  with Insist_updateStrokeTiming_acceleration [of s0 s'] show ?thesis by simp
qed

lemma stale_zero_call:
  assumes "stale_zero obj" "is_setter c" "do_call c obj = Inr (out, obj')"
  shows "stale_zero obj' \<and> out = []"
proof -
  from assms(1) obtain s where s: "obj = Insist_obj s" "speed (p_nextMove s) = 0" "in_acceleration s = 0"
    by (cases obj) simp_all
  show ?thesis
  proof (cases c)
    case (SetTimeOfStroke t)
    with assms(3) s(1) obtain s' where s': "setTimeOfStroke t (Insist_obj s) = Inr (Insist_obj s')"
      "obj' = Insist_obj s'" "out = []"
      by (auto simp add: updated_def split: sum.splits)
    from Insist_setter_acceleration [of _ s s' t] s'(1) s(2) s' show ?thesis
      by (simp add: to_int_def)
  next
    case (SetStroke k)
    with assms(3) s(1) obtain s' where s': "setStroke k (Insist_obj s) = Inr (Insist_obj s')"
      "obj' = Insist_obj s'" "out = []"
      by (auto simp add: updated_def split: sum.splits)
    from Insist_setter_acceleration [of k s s'] s'(1) s(2) s' show ?thesis
      by (simp add: to_int_def)
  next
    case (SetDepth k)
    with assms(3) s show ?thesis by (auto simp add: Pattern_setDepth_def)
  next
    case (SetSensation x)
    with assms(3) s(1) obtain s' where s': "setSensation x (Insist_obj s) = Inr (Insist_obj s')"
      "obj' = Insist_obj s'" "out = []"
      by (auto simp add: updated_def split: sum.splits)
    from Insist_setter_acceleration [of _ s s' _ x] s'(1) s(2) s' show ?thesis
      by (simp add: to_int_def)
  next
    case (SetSpeedLimit a b c)
    with assms(3) s show ?thesis by (auto simp add: Pattern_setSpeedLimit_def)
  next
    case (NextTarget now index)
    with assms(2) show ?thesis by simp
  qed
qed

lemma stale_zero_run:
  assumes "stale_zero obj" "list_all is_setter cs" "run cs obj = Inr (outs, obj')"
  shows "stale_zero obj' \<and> outs = []"
  using assms
proof (induction cs arbitrary: obj outs)
  case Nil
  then show ?case by simp
next
  case (Cons c cs)
  from Cons.prems(3) obtain out1 obj1 outs1 where
    r: "do_call c obj = Inr (out1, obj1)" "run cs obj1 = Inr (outs1, obj')" "outs = out1 @ outs1"
    by (auto split: sum.splits)
  from stale_zero_call [OF Cons.prems(1) _ r(1)] Cons.prems(2)
  have "stale_zero obj1" "out1 = []" by simp_all
  with Cons.IH [OF this(1) _ r(2)] Cons.prems(2) r(3) show ?case by simp
qed

text \<open>
  C10, as the code has it. Whenever \<^verbatim>\<open>setStroke\<close>, \<^verbatim>\<open>setTimeOfStroke\<close> or \<^verbatim>\<open>setSensation\<close> of an
  Insist returns, the stored acceleration is \<open>3 * _nextMove.speed / (_timeOfStroke *
  _strokeFraction)\<close>, truncated, where \<^verbatim>\<open>_nextMove\<close> is the command the last \<^verbatim>\<open>nextTarget\<close> call
  returned (the speed just computed from the stroke is not used). After the constructor
  and any sequence of setter calls each of which has a defined result, the first
  \<^verbatim>\<open>nextTarget\<close> returns the acceleration 0. A setter has no defined result when
  \<open>_timeOfStroke * _strokeFraction\<close> is 0, as after \<^verbatim>\<open>setSensation(100)\<close>: the quotient 0/0 is
  then converted to \<^verbatim>\<open>int\<close>.
\<close>

theorem Insist_stale_acceleration:
  "((setStroke k (Insist_obj s) = Inr (Insist_obj s') \<or>
     setTimeOfStroke t (Insist_obj s) = Inr (Insist_obj s') \<or>
     setSensation x (Insist_obj s) = Inr (Insist_obj s')) \<longrightarrow>
    in_acceleration s'
      = to_int (3.0 * real_of_int (speed (p_nextMove s))
                / (p_timeOfStroke s' * in_strokeFraction s'))) \<and>
   (Insist_nextTarget i s = Inr (mv, s') \<longrightarrow> p_nextMove s' = mv) \<and>
   (list_all is_setter cs \<and> run cs (new_pattern Insist nm g1 g2 g3) = Inr (outs, obj) \<longrightarrow>
      (\<exists>mv obj'. nextTarget now i obj = Inr (mv, obj') \<and> acceleration mv = 0))"
proof (intro conjI impI)
  assume "setStroke k (Insist_obj s) = Inr (Insist_obj s') \<or>
     setTimeOfStroke t (Insist_obj s) = Inr (Insist_obj s') \<or>
     setSensation x (Insist_obj s) = Inr (Insist_obj s')"
  from Insist_setter_acceleration [OF this]
  show "in_acceleration s'
      = to_int (3.0 * real_of_int (speed (p_nextMove s))
                / (p_timeOfStroke s' * in_strokeFraction s'))" by simp
next
  assume "Insist_nextTarget i s = Inr (mv, s')"
  then show "p_nextMove s' = mv"
    by (auto simp add: Insist_nextTarget_def Let_def set_move_def)
next
  assume a: "list_all is_setter cs \<and> run cs (new_pattern Insist nm g1 g2 g3) = Inr (outs, obj)"
  have "stale_zero (new_pattern Insist nm g1 g2 g3)"
    by (simp add: new_defs)
  from stale_zero_run [OF this] a have "stale_zero obj" by blast
  then obtain s1 where "obj = Insist_obj s1" "in_acceleration s1 = 0"
    by (cases obj) simp_all
  then show "\<exists>mv obj'. nextTarget now i obj = Inr (mv, obj') \<and> acceleration mv = 0"
    by (simp add: returned_def Insist_nextTarget_def Let_def)
qed

theorem Insist_stale_acceleration_witness:
  "list_all is_setter [SetTimeOfStroke 2, SetStroke 1000, SetDepth 1000, SetSensation 50] \<and>
   (\<exists>outs obj.
      run [SetTimeOfStroke 2, SetStroke 1000, SetDepth 1000, SetSensation 50]
        (new_pattern Insist ''Insist'' 0 0 0) = Inr (outs, obj) \<and>
      (\<exists>mv obj'. nextTarget 0 0 obj = Inr (mv, obj') \<and> acceleration mv = 0))"
proof -
  let ?cs = "[SetTimeOfStroke 2, SetStroke 1000, SetDepth 1000, SetSensation 50]"
  have s: "list_all is_setter ?cs" by simp
  have "\<exists>outs obj. run ?cs (new_pattern Insist ''Insist'' 0 0 0) = Inr (outs, obj)"
    by (simp add: updated_def Insist_setStroke_def Insist_setTimeOfStroke_def
        Insist_setSensation_def Insist_updateStrokeTiming_def Let_def base_defs new_defs)
  then obtain outs obj where r: "run ?cs (new_pattern Insist ''Insist'' 0 0 0) = Inr (outs, obj)"
    by blast
  from Insist_stale_acceleration [where cs = ?cs and nm = "''Insist''" and ?g1.0 = 0
      and ?g2.0 = 0 and ?g3.0 = 0 and outs = outs and obj = obj and now = 0 and i = 0] s r
  show ?thesis by blast
qed

lemma Insist_stale_example:
  "commands (run [SetTimeOfStroke 2, SetStroke 1000, SetDepth 1000, SetSensation 50,
                  NextTarget 0 0, SetStroke 2000, NextTarget 0 1]
               (new_pattern Insist ''Insist'' 0 0 0))
     = Inr [\<lparr>stroke = 1000, speed = 1500, acceleration = 0, skip = False\<rparr>,
            \<lparr>stroke = 0, speed = 3000, acceleration = 9000, skip = False\<rparr>]"
  by (simp add: commands_def returned_def updated_def Insist_nextTarget_def
      Insist_setStroke_def Insist_setTimeOfStroke_def Insist_setSensation_def
      Insist_updateStrokeTiming_def Let_def base_defs new_defs to_int_def)

theorem Insist_first_acceleration_counterexample:
  "commands (run [SetTimeOfStroke 2, SetStroke 1000, SetSensation 100, NextTarget 0 0]
               (new_pattern Insist ''Insist'' 0 0 0)) = Inl DivideByZero"
  by (simp add: commands_def updated_def Insist_setStroke_def Insist_setTimeOfStroke_def
      Insist_setSensation_def Insist_updateStrokeTiming_def Let_def base_defs new_defs to_int_def)

subsection \<open>The classes that never skip\<close>

lemma last_move_simps [simp]:
  "last_move (SimpleStroke_obj p) = p_nextMove p"
  "last_move (TeasingPounding_obj tp) = p_nextMove tp"
  "last_move (RoboStroke_obj rs) = p_nextMove rs"
  "last_move (HalfnHalf_obj hh) = p_nextMove hh"
  "last_move (Deeper_obj dp) = p_nextMove dp"
  "last_move (StopNGo_obj sg) = p_nextMove sg"
  "last_move (Insist_obj ins) = p_nextMove ins"
  "last_move (Slammin_obj sl) = p_nextMove sl"
  "last_move (Knot_obj kn) = p_nextMove kn"
  by (simp_all add: last_move_def Pattern.truncate_def)

lemma SimpleStroke_keeps_skip:
  "SimpleStroke_nextTarget i s = Inr (mv, s') \<Longrightarrow> skip mv = skip (p_nextMove s) \<and> p_nextMove s' = mv"
  by (auto simp add: SimpleStroke_nextTarget_def Let_def set_move_def split: if_splits)

lemma TeasingPounding_keeps_skip:
  "TeasingPounding_nextTarget i s = Inr (mv, s') \<Longrightarrow> skip mv = skip (p_nextMove s) \<and> p_nextMove s' = mv"
  by (auto simp add: TeasingPounding_nextTarget_def Let_def set_move_def split: if_splits)

lemma RoboStroke_keeps_skip:
  "RoboStroke_nextTarget i s = Inr (mv, s') \<Longrightarrow> skip mv = skip (p_nextMove s) \<and> p_nextMove s' = mv"
  by (auto simp add: RoboStroke_nextTarget_def Let_def set_move_def split: if_splits)

lemma HalfnHalf_keeps_skip:
  "HalfnHalf_nextTarget i s = Inr (mv, s') \<Longrightarrow> skip mv = skip (p_nextMove s) \<and> p_nextMove s' = mv"
  by (auto simp add: HalfnHalf_nextTarget_def Let_def set_move_def split: if_splits)

lemma Deeper_keeps_skip:
  "Deeper_nextTarget i s = Inr (mv, s') \<Longrightarrow> skip mv = skip (p_nextMove s) \<and> p_nextMove s' = mv"
  by (auto simp add: Deeper_nextTarget_def Let_def set_move_def split: if_splits)

lemma Insist_keeps_skip:
  "Insist_nextTarget i s = Inr (mv, s') \<Longrightarrow> skip mv = skip (p_nextMove s) \<and> p_nextMove s' = mv"
  by (auto simp add: Insist_nextTarget_def Let_def set_move_def split: if_splits)

lemma nextTarget_keeps_skip:
  assumes "\<not> writes_skip (class_of obj)" "nextTarget now i obj = Inr (mv, obj')"
  shows "skip mv = skip (last_move obj) \<and> last_move obj' = mv \<and> class_of obj' = class_of obj"
proof (cases obj)
  case (SimpleStroke_obj s)
  with assms(2) SimpleStroke_keeps_skip [of i s mv] show ?thesis
    by (auto simp add: returned_def split: sum.splits)
next
  case (TeasingPounding_obj s)
  with assms(2) TeasingPounding_keeps_skip [of i s mv] show ?thesis
    by (auto simp add: returned_def split: sum.splits)
next
  case (RoboStroke_obj s)
  with assms(2) RoboStroke_keeps_skip [of i s mv] show ?thesis
    by (auto simp add: returned_def split: sum.splits)
next
  case (HalfnHalf_obj s)
  with assms(2) HalfnHalf_keeps_skip [of i s mv] show ?thesis
    by (auto simp add: returned_def split: sum.splits)
next
  case (Deeper_obj s)
  with assms(2) Deeper_keeps_skip [of i s mv] show ?thesis
    by (auto simp add: returned_def split: sum.splits)
next
  case (Insist_obj s)
  with assms(2) Insist_keeps_skip [of i s mv] show ?thesis
    by (auto simp add: returned_def split: sum.splits)
next
  case (StopNGo_obj s)
  with assms(1) show ?thesis by simp
next
  case (Slammin_obj s)
  with assms(1) show ?thesis by simp
next
  case (Knot_obj s)
  with assms(1) show ?thesis by simp
qed

lemma Insist_update_keeps_move:
  "Insist_updateStrokeTiming s = Inr s' \<Longrightarrow> p_nextMove s' = p_nextMove s"
  by (auto simp add: Insist_updateStrokeTiming_def Let_def split: if_splits)

lemma Slammin_update_keeps_move:
  "Slammin_updateOutStrokeSpeed s = Inr s' \<Longrightarrow> p_nextMove s' = p_nextMove s"
  by (auto simp add: Slammin_updateOutStrokeSpeed_def Let_def split: if_splits)

lemma Knot_update_keeps_move:
  "Knot_updateSlowSpeed s = Inr s' \<Longrightarrow> p_nextMove s' = p_nextMove s"
  by (auto simp add: Knot_updateSlowSpeed_def Let_def split: if_splits)

lemma setTimeOfStroke_keeps_move:
  assumes "setTimeOfStroke t obj = Inr obj'"
  shows "last_move obj' = last_move obj \<and> class_of obj' = class_of obj"
  using assms
  by (cases obj)
    (auto simp add: updated_def SimpleStroke_setTimeOfStroke_def
      TeasingPounding_setTimeOfStroke_def TeasingPounding_updateStrokeTiming_def
      RoboStroke_setTimeOfStroke_def HalfnHalf_setTimeOfStroke_def
      HalfnHalf_updateStrokeTiming_def Deeper_setTimeOfStroke_def StopNGo_setTimeOfStroke_def
      Insist_setTimeOfStroke_def Slammin_setTimeOfStroke_def Knot_setTimeOfStroke_def Let_def
      split: sum.splits
      dest!: Insist_update_keeps_move Slammin_update_keeps_move Knot_update_keeps_move)

lemma setStroke_keeps_move:
  assumes "setStroke k obj = Inr obj'"
  shows "last_move obj' = last_move obj \<and> class_of obj' = class_of obj"
  using assms
  by (cases obj)
    (auto simp add: updated_def Pattern_setStroke_def
      Insist_setStroke_def Slammin_setStroke_def Knot_setStroke_def
      split: sum.splits
      dest!: Insist_update_keeps_move Slammin_update_keeps_move Knot_update_keeps_move)

lemma setSensation_keeps_move:
  assumes "setSensation x obj = Inr obj'"
  shows "last_move obj' = last_move obj \<and> class_of obj' = class_of obj"
  using assms
  by (cases obj)
    (auto simp add: updated_def Pattern_setSensation_def
      TeasingPounding_setSensation_def TeasingPounding_updateStrokeTiming_def
      RoboStroke_setSensation_def HalfnHalf_setSensation_def
      HalfnHalf_updateStrokeTiming_def Deeper_setSensation_def StopNGo_setSensation_def
      updateDelay_def
      Insist_setSensation_def Slammin_setSensation_def Knot_setSensation_def Let_def
      split: sum.splits
      dest!: Insist_update_keeps_move Slammin_update_keeps_move Knot_update_keeps_move)

lemma setDepth_keeps_move:
  "last_move (setDepth k obj) = last_move obj \<and> class_of (setDepth k obj) = class_of obj"
  by (cases obj) (simp_all add: Pattern_setDepth_def)

lemma setSpeedLimit_keeps_move:
  "last_move (setSpeedLimit a b c obj) = last_move obj \<and>
   class_of (setSpeedLimit a b c obj) = class_of obj"
  by (cases obj) (simp_all add: Pattern_setSpeedLimit_def)

lemma quiet_call:
  assumes "\<not> writes_skip (class_of obj)" "skip (last_move obj) = False"
    "do_call c obj = Inr (out, obj')"
  shows "(\<forall>mv\<in>set out. skip mv = False) \<and> skip (last_move obj') = False \<and>
         class_of obj' = class_of obj"
proof (cases c)
  case (SetTimeOfStroke t)
  with assms(3) setTimeOfStroke_keeps_move [of t obj obj'] assms(2) show ?thesis
    by (auto split: sum.splits)
next
  case (SetStroke k)
  with assms(3) setStroke_keeps_move [of k obj obj'] assms(2) show ?thesis
    by (auto split: sum.splits)
next
  case (SetDepth k)
  with assms(3) setDepth_keeps_move [of k obj] assms(2) show ?thesis by auto
next
  case (SetSensation x)
  with assms(3) setSensation_keeps_move [of x obj obj'] assms(2) show ?thesis
    by (auto split: sum.splits)
next
  case (SetSpeedLimit a b c)
  with assms(3) setSpeedLimit_keeps_move [of a b c obj] assms(2) show ?thesis by auto
next
  case (NextTarget now i)
  with assms(3) obtain mv where mv: "nextTarget now i obj = Inr (mv, obj')" "out = [mv]"
    by (auto split: sum.splits)
  from nextTarget_keeps_skip [OF assms(1) mv(1)] assms(2) mv(2) show ?thesis by simp
qed

lemma quiet_run:
  assumes "\<not> writes_skip (class_of obj)" "skip (last_move obj) = False"
    "run cs obj = Inr (outs, obj')"
  shows "(\<forall>mv\<in>set outs. skip mv = False) \<and> skip (last_move obj') = False \<and>
         class_of obj' = class_of obj"
  using assms
proof (induction cs arbitrary: obj outs)
  case Nil
  then show ?case by simp
next
  case (Cons c cs)
  from Cons.prems(3) obtain out1 obj1 outs1 where
    r: "do_call c obj = Inr (out1, obj1)" "run cs obj1 = Inr (outs1, obj')" "outs = out1 @ outs1"
    by (auto split: sum.splits)
  from quiet_call [OF Cons.prems(1,2) r(1)]
  have q: "\<forall>mv\<in>set out1. skip mv = False" "skip (last_move obj1) = False"
    "class_of obj1 = class_of obj" by simp_all
  from Cons.IH [OF _ q(2) r(2)] q Cons.prems(1) r(3) show ?case by auto
qed

lemma new_pattern_quiet:
  "skip (last_move (new_pattern cls nm g1 g2 g3)) = False \<and>
   class_of (new_pattern cls nm g1 g2 g3) = cls"
  by (cases cls) (simp_all add: new_defs)

lemma ready_returns:
  assumes "ready obj"
  shows "\<exists>mv obj'. nextTarget now i obj = Inr (mv, obj') \<and> ready obj'"
  using assms
  by (cases obj)
    (auto simp add: returned_def Let_def set_move_def updateDelay_def startDelay_def
      SimpleStroke_nextTarget_def TeasingPounding_nextTarget_def RoboStroke_nextTarget_def
      HalfnHalf_nextTarget_def Deeper_nextTarget_def StopNGo_nextTarget_def
      StopNGo_seriesDone_def Insist_nextTarget_def Slammin_nextTarget_def Knot_nextTarget_def
      Knot_phase_def split: prod.splits)

lemma run_ticks_ready:
  assumes "ready obj"
  shows "\<exists>outs obj'. run (ticks nows a n) obj = Inr (outs, obj') \<and> length outs = n \<and> ready obj'"
  using assms
proof (induction n arbitrary: a obj)
  case 0
  then show ?case by (simp add: ticks_def)
next
  case (Suc n)
  from ready_returns [OF Suc.prems, of "nows a" a] obtain mv obj1 where
    one: "nextTarget (nows a) a obj = Inr (mv, obj1)" "ready obj1" by blast
  from Suc.IH [OF one(2), of "Suc a"] obtain outs obj' where
    rest: "run (ticks nows (Suc a) n) obj1 = Inr (outs, obj')" "length outs = n" "ready obj'"
    by blast
  have "[a..<a + Suc n] = a # [Suc a..<Suc a + n]" by (simp add: upt_conv_Cons)
  then have "ticks nows a (Suc n) = NextTarget (nows a) a # ticks nows (Suc a) n"
    unfolding ticks_def by simp
  with one(1) rest show ?case by simp
qed

lemma fscale_1_5: "1 \<le> fscale 0 100 1 5 v 0"
  by (simp add: fscale_def max_def min_def)

lemma split_times_nonzero:
  fixes t f :: real
  assumes "t \<noteq> 0" "1 \<le> f"
  shows "0.5 * t / f \<noteq> 0 \<and> t - 0.5 * t / f \<noteq> 0"
proof -
  have "t - 0.5 * t / f = t * (1 - 0.5 / f)" by (simp add: algebra_simps)
  moreover have "0.5 / f \<le> 0.5" using assms(2) by (simp add: field_simps)
  ultimately show ?thesis using assms by simp
qed

lemma TeasingPounding_update_ready:
  assumes "p_timeOfStroke s \<noteq> 0"
  shows "tp_timeOfInStroke (TeasingPounding_updateStrokeTiming s) \<noteq> 0 \<and>
         tp_timeOfOutStroke (TeasingPounding_updateStrokeTiming s) \<noteq> 0"
proof -
  define f where "f = fscale 0.0 100.0 1.0 5.0 \<bar>p_sensation s\<bar> 0.0"
  have "1 \<le> f" unfolding f_def using fscale_1_5 [of "\<bar>p_sensation s\<bar>"] by simp
  from split_times_nonzero [OF assms this] show ?thesis
    unfolding TeasingPounding_updateStrokeTiming_def Let_def f_def [symmetric] by simp
qed

lemma HalfnHalf_update_ready:
  assumes "p_timeOfStroke s \<noteq> 0"
  shows "hh_timeOfInStroke (HalfnHalf_updateStrokeTiming s) \<noteq> 0 \<and>
         hh_timeOfOutStroke (HalfnHalf_updateStrokeTiming s) \<noteq> 0"
proof -
  define f where "f = fscale 0.0 100.0 1.0 5.0 \<bar>p_sensation s\<bar> 0.0"
  have "1 \<le> f" unfolding f_def using fscale_1_5 [of "\<bar>p_sensation s\<bar>"] by simp
  from split_times_nonzero [OF assms this] show ?thesis
    unfolding HalfnHalf_updateStrokeTiming_def Let_def f_def [symmetric] by simp
qed

lemma to_int_range:
  assumes "-100 \<le> x" "x \<le> 100"
  shows "-100 \<le> to_int x \<and> to_int x \<le> 100 \<and> (x < 0 \<longrightarrow> to_int x \<le> 0) \<and> (0 \<le> x \<longrightarrow> 0 \<le> to_int x)"
  using assms by (auto simp add: to_int_def le_floor_iff floor_le_iff ceiling_le_iff le_ceiling_iff)

lemma sdiv_nonneg: "0 \<le> a \<Longrightarrow> 0 < b \<Longrightarrow> 0 \<le> (a::int) sdiv b"
  by (simp add: signed_divide_int_def sgn_if pos_imp_zdiv_nonneg_iff)

lemma Deeper_count_nonzero:
  assumes "-100 \<le> x" "x \<le> 100"
  shows "dp_countStrokesForRamp (Deeper_setSensation x s) \<noteq> 0"
proof -
  note r = to_int_range [OF assms]
  show ?thesis
  proof (cases "x < 0")
    case True
    then have "0 \<le> ((to_int x + 100) * 9) sdiv 100" using r by (intro sdiv_nonneg) simp_all
    with True show ?thesis by (simp add: Deeper_setSensation_def map_long_def Let_def)
  next
    case False
    then have "0 \<le> (to_int x * 21) sdiv 100" using r by (intro sdiv_nonneg) simp_all
    with False show ?thesis by (simp add: Deeper_setSensation_def map_long_def Let_def)
  qed
qed

lemma configured_ready:
  assumes "0 < t" "-100 \<le> x" "x \<le> 100" "cls = Insist \<longrightarrow> \<bar>x\<bar> \<noteq> 100"
  shows "\<exists>obj. run (configure t k d x) (new_pattern cls nm g1 g2 g3) = Inr ([], obj) \<and> ready obj"
proof (cases cls)
  case SimpleStroke
  with assms(1) show ?thesis
    by (simp add: configure_def SimpleStroke_setTimeOfStroke_def base_defs new_defs)
next
  case TeasingPounding
  let ?s = "(Pattern_setDepth d (Pattern_setStroke k (TeasingPounding_setTimeOfStroke t
      (TeasingPounding_new nm g1 g2 g3))))\<lparr>p_sensation := x\<rparr>"
  have "p_timeOfStroke ?s = t"
    by (simp add: TeasingPounding_setTimeOfStroke_def TeasingPounding_updateStrokeTiming_def
        Let_def base_defs)
  with assms(1) have "p_timeOfStroke ?s \<noteq> 0" by simp
  from TeasingPounding_update_ready [OF this] TeasingPounding show ?thesis
    by (simp add: configure_def TeasingPounding_setSensation_def)
next
  case RoboStroke
  from RoboStroke_x_range [of x "Pattern_setDepth d (Pattern_setStroke k
      (RoboStroke_setTimeOfStroke t (RoboStroke_new nm g1 g2 g3)))"]
  have "rs_x (RoboStroke_setSensation x (Pattern_setDepth d (Pattern_setStroke k
      (RoboStroke_setTimeOfStroke t (RoboStroke_new nm g1 g2 g3))))) \<noteq> 0"
    "rs_x (RoboStroke_setSensation x (Pattern_setDepth d (Pattern_setStroke k
      (RoboStroke_setTimeOfStroke t (RoboStroke_new nm g1 g2 g3))))) \<noteq> 1"
    by auto
  moreover have "p_timeOfStroke (RoboStroke_setSensation x (Pattern_setDepth d (Pattern_setStroke k
      (RoboStroke_setTimeOfStroke t (RoboStroke_new nm g1 g2 g3))))) = t / 2"
    by (simp add: RoboStroke_setSensation_def RoboStroke_setTimeOfStroke_def Let_def base_defs)
  ultimately show ?thesis using RoboStroke assms(1)
    by (simp add: configure_def)
next
  case HalfnHalf
  let ?s = "(Pattern_setDepth d (Pattern_setStroke k (HalfnHalf_setTimeOfStroke t
      (HalfnHalf_new nm g1 g2 g3))))\<lparr>p_sensation := x\<rparr>"
  have "p_timeOfStroke ?s = t"
    by (simp add: HalfnHalf_setTimeOfStroke_def HalfnHalf_updateStrokeTiming_def
        Let_def base_defs)
  with assms(1) have "p_timeOfStroke ?s \<noteq> 0" by simp
  from HalfnHalf_update_ready [OF this] HalfnHalf show ?thesis
    by (simp add: configure_def HalfnHalf_setSensation_def)
next
  case Deeper
  have "p_timeOfStroke (Deeper_setSensation x (Pattern_setDepth d (Pattern_setStroke k
      (Deeper_setTimeOfStroke t (Deeper_new nm g1 g2 g3))))) = t / 2"
    by (simp add: Deeper_setSensation_def Deeper_setTimeOfStroke_def Let_def base_defs)
  with Deeper assms(1) Deeper_count_nonzero [OF assms(2,3)] show ?thesis
    by (simp add: configure_def)
next
  case StopNGo
  with assms(1) show ?thesis
    by (simp add: configure_def StopNGo_setTimeOfStroke_def StopNGo_setSensation_def
        base_defs new_defs)
next
  case Insist
  with assms(4) have "\<bar>x\<bar> \<noteq> 100" by simp
  with Insist assms(1) show ?thesis
    by (simp add: configure_def updated_def Insist_setTimeOfStroke_def Insist_setStroke_def
        Insist_setSensation_def Insist_updateStrokeTiming_def Let_def base_defs new_defs)
next
  case Slammin
  with assms(1) show ?thesis
    by (simp add: configure_def updated_def Slammin_setTimeOfStroke_def Slammin_setStroke_def
        Slammin_setSensation_def Slammin_updateOutStrokeSpeed_def Let_def base_defs new_defs)
next
  case Knot
  with assms(1) show ?thesis
    by (simp add: configure_def updated_def Knot_setTimeOfStroke_def Knot_setStroke_def
        Knot_setSensation_def Knot_updateSlowSpeed_def Let_def base_defs new_defs)
qed

text \<open>
  C9. For SimpleStroke, TeasingPounding, RoboStroke, HalfnHalf, Deeper and Insist, every
  command returned by a \<^verbatim>\<open>nextTarget\<close> call has \<open>skip = False\<close>, whatever calls (setters, with
  any arguments, and \<^verbatim>\<open>nextTarget\<close> with any index) were made on the object since its
  construction. And the calls do return: after a configuration with a positive cycle time
  and a sensation in [-100, 100] (short of 100 in absolute value for Insist, whose setter
  divides by the stroke fraction), \<open>n\<close> calls return \<open>n\<close> commands.
\<close>

theorem never_skips:
  assumes "\<not> writes_skip cls"
  shows "(run cs (new_pattern cls nm g1 g2 g3) = Inr (outs, obj) \<longrightarrow>
            (\<forall>mv\<in>set outs. skip mv = False)) \<and>
         (0 < t \<and> -100 \<le> x \<and> x \<le> 100 \<and> (cls = Insist \<longrightarrow> \<bar>x\<bar> \<noteq> 100) \<longrightarrow>
            (\<exists>outs' obj'.
               run (configure t k d x @ ticks nows 0 n) (new_pattern cls nm g1 g2 g3)
                 = Inr (outs', obj') \<and>
               length outs' = n \<and> (\<forall>mv\<in>set outs'. skip mv = False)))"
proof -
  note fresh = new_pattern_quiet [of cls nm g1 g2 g3]
  have quiet: "\<forall>mv\<in>set outs. skip mv = False"
    if "run cs (new_pattern cls nm g1 g2 g3) = Inr (outs, obj)" for cs outs obj
    using quiet_run [OF _ _ that] assms fresh by simp
  have returns: "\<exists>outs' obj'.
      run (configure t k d x @ ticks nows 0 n) (new_pattern cls nm g1 g2 g3) = Inr (outs', obj') \<and>
      length outs' = n \<and> (\<forall>mv\<in>set outs'. skip mv = False)"
    if c: "0 < t \<and> -100 \<le> x \<and> x \<le> 100 \<and> (cls = Insist \<longrightarrow> \<bar>x\<bar> \<noteq> 100)"
  proof -
    from c configured_ready [of t x cls k d nm g1 g2 g3] obtain obj1 where
      o1: "run (configure t k d x) (new_pattern cls nm g1 g2 g3) = Inr ([], obj1)" "ready obj1"
      by blast
    from run_ticks_ready [OF o1(2), of nows 0 n] obtain outs' obj' where
      o2: "run (ticks nows 0 n) obj1 = Inr (outs', obj')" "length outs' = n" by blast
    have r: "run (configure t k d x @ ticks nows 0 n) (new_pattern cls nm g1 g2 g3)
               = Inr (outs', obj')"
      using o1(1) o2(1) by (simp add: run_append)
    from quiet [OF r] r o2(2) show ?thesis by blast
  qed
  from quiet returns show ?thesis by blast
qed

theorem never_skips_witness:
  "\<not> writes_skip Insist \<and> (0::real) < 2 \<and> (-100::real) \<le> 50 \<and> (50::real) \<le> 100 \<and>
   \<bar>50::real\<bar> \<noteq> 100 \<and>
   (\<exists>outs obj.
      run (configure 2 1000 1000 50 @ ticks (\<lambda>i. 0) 0 3) (new_pattern Insist ''Insist'' 0 0 0)
        = Inr (outs, obj) \<and>
      length outs = 3 \<and> skip (outs ! 0) = False \<and> skip (outs ! 2) = False)"
proof -
  have c: "\<not> writes_skip Insist" by simp
  have "0 < (2::real) \<and> -100 \<le> (50::real) \<and> (50::real) \<le> 100 \<and>
      (Insist = Insist \<longrightarrow> \<bar>50::real\<bar> \<noteq> 100)" by simp
  with never_skips [OF c, where t = 2 and x = 50 and k = 1000 and d = 1000
      and nows = "\<lambda>i. 0" and n = 3 and nm = "''Insist''" and ?g1.0 = 0 and ?g2.0 = 0
      and ?g3.0 = 0]
  obtain outs obj where
    r: "run (configure 2 1000 1000 50 @ ticks (\<lambda>i. 0) 0 3) (new_pattern Insist ''Insist'' 0 0 0)
          = Inr (outs, obj)" "length outs = 3" "\<forall>mv\<in>set outs. skip mv = False"
    by blast
  from r(2,3) have "skip (outs ! 0) = False" "skip (outs ! 2) = False" by simp_all
  with r(1,2) c show ?thesis by auto
qed

subsection \<open>The speed limits are stored and never read\<close>

lemma SimpleStroke_limits:
  "SimpleStroke_nextTarget i (Pattern_setSpeedLimit a b c s)
     = (case SimpleStroke_nextTarget i s of
          Inl e \<Rightarrow> Inl e | Inr (mv, s') \<Rightarrow> Inr (mv, Pattern_setSpeedLimit a b c s'))"
  by (simp add: SimpleStroke_nextTarget_def Pattern_setSpeedLimit_def set_move_def Let_def)

lemma TeasingPounding_limits:
  "TeasingPounding_nextTarget i (Pattern_setSpeedLimit a b c s)
     = (case TeasingPounding_nextTarget i s of
          Inl e \<Rightarrow> Inl e | Inr (mv, s') \<Rightarrow> Inr (mv, Pattern_setSpeedLimit a b c s'))"
  by (simp add: TeasingPounding_nextTarget_def Pattern_setSpeedLimit_def set_move_def Let_def)

lemma RoboStroke_limits:
  "RoboStroke_nextTarget i (Pattern_setSpeedLimit a b c s)
     = (case RoboStroke_nextTarget i s of
          Inl e \<Rightarrow> Inl e | Inr (mv, s') \<Rightarrow> Inr (mv, Pattern_setSpeedLimit a b c s'))"
  by (simp add: RoboStroke_nextTarget_def Pattern_setSpeedLimit_def set_move_def Let_def)

lemma HalfnHalf_limits:
  "HalfnHalf_nextTarget i (Pattern_setSpeedLimit a b c s)
     = (case HalfnHalf_nextTarget i s of
          Inl e \<Rightarrow> Inl e | Inr (mv, s') \<Rightarrow> Inr (mv, Pattern_setSpeedLimit a b c s'))"
  by (simp add: HalfnHalf_nextTarget_def Pattern_setSpeedLimit_def set_move_def Let_def)

lemma Deeper_limits:
  "Deeper_nextTarget i (Pattern_setSpeedLimit a b c s)
     = (case Deeper_nextTarget i s of
          Inl e \<Rightarrow> Inl e | Inr (mv, s') \<Rightarrow> Inr (mv, Pattern_setSpeedLimit a b c s'))"
  by (simp add: Deeper_nextTarget_def Pattern_setSpeedLimit_def set_move_def Let_def)

lemma StopNGo_limits:
  "StopNGo_nextTarget now i (Pattern_setSpeedLimit a b c s)
     = (case StopNGo_nextTarget now i s of
          Inl e \<Rightarrow> Inl e | Inr (mv, s') \<Rightarrow> Inr (mv, Pattern_setSpeedLimit a b c s'))"
  by (simp add: StopNGo_nextTarget_def StopNGo_seriesDone_def Pattern_setSpeedLimit_def
      set_move_def startDelay_def isStillDelayed_def Let_def)

lemma Insist_limits:
  "Insist_nextTarget i (Pattern_setSpeedLimit a b c s)
     = (case Insist_nextTarget i s of
          Inl e \<Rightarrow> Inl e | Inr (mv, s') \<Rightarrow> Inr (mv, Pattern_setSpeedLimit a b c s'))"
  by (simp add: Insist_nextTarget_def Pattern_setSpeedLimit_def set_move_def Let_def)

lemma Slammin_limits:
  "Slammin_nextTarget now i (Pattern_setSpeedLimit a b c s)
     = (case Slammin_nextTarget now i s of
          Inl e \<Rightarrow> Inl e | Inr (mv, s') \<Rightarrow> Inr (mv, Pattern_setSpeedLimit a b c s'))"
  by (simp add: Slammin_nextTarget_def Pattern_setSpeedLimit_def
      set_move_def startDelay_def updateDelay_def isStillDelayed_def Let_def)

lemma Knot_limits:
  "Knot_nextTarget now i (Pattern_setSpeedLimit a b c s)
     = (case Knot_nextTarget now i s of
          Inl e \<Rightarrow> Inl e | Inr (mv, s') \<Rightarrow> Inr (mv, Pattern_setSpeedLimit a b c s'))"
  by (simp add: Knot_nextTarget_def Knot_phase_def Pattern_setSpeedLimit_def
      set_move_def startDelay_def updateDelay_def isStillDelayed_def Let_def)

lemma nextTarget_limits:
  "nextTarget now i (setSpeedLimit a b c obj)
     = (case nextTarget now i obj of
          Inl e \<Rightarrow> Inl e | Inr (mv, obj') \<Rightarrow> Inr (mv, setSpeedLimit a b c obj'))"
  by (cases obj)
    (simp_all add: returned_def SimpleStroke_limits TeasingPounding_limits RoboStroke_limits
      HalfnHalf_limits Deeper_limits StopNGo_limits Insist_limits Slammin_limits Knot_limits
      split: sum.splits)

lemma Insist_update_limits:
  "Insist_updateStrokeTiming (Pattern_setSpeedLimit a b c s)
     = (case Insist_updateStrokeTiming s of
          Inl e \<Rightarrow> Inl e | Inr s' \<Rightarrow> Inr (Pattern_setSpeedLimit a b c s'))"
  by (simp add: Insist_updateStrokeTiming_def Pattern_setSpeedLimit_def Let_def)

lemma Slammin_update_limits:
  "Slammin_updateOutStrokeSpeed (Pattern_setSpeedLimit a b c s)
     = (case Slammin_updateOutStrokeSpeed s of
          Inl e \<Rightarrow> Inl e | Inr s' \<Rightarrow> Inr (Pattern_setSpeedLimit a b c s'))"
  by (simp add: Slammin_updateOutStrokeSpeed_def Pattern_setSpeedLimit_def Let_def)

lemma Knot_update_limits:
  "Knot_updateSlowSpeed (Pattern_setSpeedLimit a b c s)
     = (case Knot_updateSlowSpeed s of
          Inl e \<Rightarrow> Inl e | Inr s' \<Rightarrow> Inr (Pattern_setSpeedLimit a b c s'))"
  by (simp add: Knot_updateSlowSpeed_def Pattern_setSpeedLimit_def Let_def)

lemma setTimeOfStroke_limits:
  "setTimeOfStroke t (setSpeedLimit a b c obj)
     = (case setTimeOfStroke t obj of
          Inl e \<Rightarrow> Inl e | Inr obj' \<Rightarrow> Inr (setSpeedLimit a b c obj'))"
proof (cases obj)
  case (Insist_obj s)
  have "Insist_setTimeOfStroke t (Pattern_setSpeedLimit a b c s)
          = Insist_updateStrokeTiming (Pattern_setSpeedLimit a b c (s\<lparr>p_timeOfStroke := 0.5 * t\<rparr>))"
    by (cases s) (simp add: Insist_setTimeOfStroke_def Pattern_setSpeedLimit_def)
  with Insist_obj show ?thesis
    by (simp add: updated_def Insist_update_limits Insist_setTimeOfStroke_def split: sum.splits)
next
  case (Slammin_obj s)
  have "Slammin_setTimeOfStroke t (Pattern_setSpeedLimit a b c s)
          = Slammin_updateOutStrokeSpeed
              (Pattern_setSpeedLimit a b c (s\<lparr>p_timeOfStroke := 0.5 * t, sl_speed := t\<rparr>))"
    by (cases s) (simp add: Slammin_setTimeOfStroke_def Pattern_setSpeedLimit_def)
  with Slammin_obj show ?thesis
    by (simp add: updated_def Slammin_update_limits Slammin_setTimeOfStroke_def split: sum.splits)
next
  case (Knot_obj s)
  have "Knot_setTimeOfStroke t (Pattern_setSpeedLimit a b c s)
          = Knot_updateSlowSpeed
              (Pattern_setSpeedLimit a b c (s\<lparr>p_timeOfStroke := 0.5 * t, kn_speed := t\<rparr>))"
    by (cases s) (simp add: Knot_setTimeOfStroke_def Pattern_setSpeedLimit_def)
  with Knot_obj show ?thesis
    by (simp add: updated_def Knot_update_limits Knot_setTimeOfStroke_def split: sum.splits)
qed (simp_all add: Pattern_setSpeedLimit_def SimpleStroke_setTimeOfStroke_def
      TeasingPounding_setTimeOfStroke_def TeasingPounding_updateStrokeTiming_def
      RoboStroke_setTimeOfStroke_def HalfnHalf_setTimeOfStroke_def
      HalfnHalf_updateStrokeTiming_def Deeper_setTimeOfStroke_def StopNGo_setTimeOfStroke_def
      Let_def)

lemma setStroke_limits:
  "setStroke k (setSpeedLimit a b c obj)
     = (case setStroke k obj of
          Inl e \<Rightarrow> Inl e | Inr obj' \<Rightarrow> Inr (setSpeedLimit a b c obj'))"
proof (cases obj)
  case (Insist_obj s)
  have "Insist_setStroke k (Pattern_setSpeedLimit a b c s)
          = Insist_updateStrokeTiming (Pattern_setSpeedLimit a b c (s\<lparr>p_stroke := k\<rparr>))"
    by (cases s) (simp add: Insist_setStroke_def Pattern_setSpeedLimit_def)
  with Insist_obj show ?thesis
    by (simp add: updated_def Insist_update_limits Insist_setStroke_def split: sum.splits)
next
  case (Slammin_obj s)
  have "Slammin_setStroke k (Pattern_setSpeedLimit a b c s)
          = Slammin_updateOutStrokeSpeed (Pattern_setSpeedLimit a b c (s\<lparr>p_stroke := k\<rparr>))"
    by (cases s) (simp add: Slammin_setStroke_def Pattern_setSpeedLimit_def)
  with Slammin_obj show ?thesis
    by (simp add: updated_def Slammin_update_limits Slammin_setStroke_def split: sum.splits)
next
  case (Knot_obj s)
  have "Knot_setStroke k (Pattern_setSpeedLimit a b c s)
          = Knot_updateSlowSpeed (Pattern_setSpeedLimit a b c (s\<lparr>p_stroke := k\<rparr>))"
    by (cases s) (simp add: Knot_setStroke_def Pattern_setSpeedLimit_def)
  with Knot_obj show ?thesis
    by (simp add: updated_def Knot_update_limits Knot_setStroke_def split: sum.splits)
qed (simp_all add: Pattern_setSpeedLimit_def Pattern_setStroke_def)

lemma setSensation_limits:
  "setSensation x (setSpeedLimit a b c obj)
     = (case setSensation x obj of
          Inl e \<Rightarrow> Inl e | Inr obj' \<Rightarrow> Inr (setSpeedLimit a b c obj'))"
proof (cases obj)
  case (Insist_obj s)
  have "Insist_setSensation x (Pattern_setSpeedLimit a b c s)
          = Insist_updateStrokeTiming (Pattern_setSpeedLimit a b c
              (s\<lparr>p_sensation := x, in_strokeFraction := (100 - \<bar>x\<bar>) / 100.0,
                 in_strokeInFront := (if x > 0 then True else False)\<rparr>))"
    by (cases s) (simp add: Insist_setSensation_def Pattern_setSpeedLimit_def Let_def)
  with Insist_obj show ?thesis
    by (simp add: updated_def Insist_update_limits Insist_setSensation_def Let_def
        split: sum.splits)
next
  case (Slammin_obj s)
  have "Slammin_setSensation x (Pattern_setSpeedLimit a b c s)
          = Slammin_updateOutStrokeSpeed (Pattern_setSpeedLimit a b c (s\<lparr>p_sensation := x\<rparr>))"
    by (cases s) (simp add: Slammin_setSensation_def Pattern_setSpeedLimit_def)
  with Slammin_obj show ?thesis
    by (simp add: updated_def Slammin_update_limits Slammin_setSensation_def split: sum.splits)
next
  case (Knot_obj s)
  have "Knot_setSensation x (Pattern_setSpeedLimit a b c s)
          = Knot_updateSlowSpeed (Pattern_setSpeedLimit a b c (s\<lparr>p_sensation := x\<rparr>))"
    by (cases s) (simp add: Knot_setSensation_def Pattern_setSpeedLimit_def)
  with Knot_obj show ?thesis
    by (simp add: updated_def Knot_update_limits Knot_setSensation_def split: sum.splits)
qed (simp_all add: Pattern_setSpeedLimit_def Pattern_setSensation_def
      TeasingPounding_setSensation_def TeasingPounding_updateStrokeTiming_def
      RoboStroke_setSensation_def HalfnHalf_setSensation_def
      HalfnHalf_updateStrokeTiming_def Deeper_setSensation_def StopNGo_setSensation_def
      updateDelay_def Let_def)

lemma setDepth_limits:
  "setDepth k (setSpeedLimit a b c obj) = setSpeedLimit a b c (setDepth k obj)"
  by (cases obj) (simp_all add: Pattern_setSpeedLimit_def Pattern_setDepth_def)

lemma setSpeedLimit_twice:
  "setSpeedLimit a' b' c' (setSpeedLimit a b c obj) = setSpeedLimit a' b' c' obj"
  by (cases obj) (simp_all add: Pattern_setSpeedLimit_def)

lemma do_call_erased:
  "do_call (erase_call c) (erase_limits obj)
     = (case do_call c obj of
          Inl e \<Rightarrow> Inl e | Inr (out, obj') \<Rightarrow> Inr (out, erase_limits obj'))"
  by (cases c)
    (simp_all add: erase_limits_def nextTarget_limits setTimeOfStroke_limits setStroke_limits
      setSensation_limits setDepth_limits setSpeedLimit_twice split: sum.splits)

lemma run_erased:
  "run (map erase_call cs) (erase_limits obj)
     = (case run cs obj of
          Inl e \<Rightarrow> Inl e | Inr (outs, obj') \<Rightarrow> Inr (outs, erase_limits obj'))"
  by (induction cs arbitrary: obj) (simp_all add: do_call_erased split: sum.splits)

text \<open>
  C8. Two runs whose calls are the same but for the values passed to \<^verbatim>\<open>setSpeedLimit\<close>, on
  objects (of any of the nine classes) that are the same but for the three stored limits,
  return the same commands, or fail alike: no \<^verbatim>\<open>nextTarget\<close> and no setter reads
  \<^verbatim>\<open>_maxSpeed\<close>, \<^verbatim>\<open>_maxAcceleration\<close> or \<^verbatim>\<open>_stepsPerMM\<close>.
\<close>

theorem limits_not_read:
  assumes "map erase_call cs = map erase_call ds" and "erase_limits v = erase_limits w"
  shows "commands (run cs v) = commands (run ds w)"
proof -
  have "commands (run cs v) = commands (run (map erase_call cs) (erase_limits v))"
    by (simp add: run_erased commands_def split: sum.splits)
  moreover have "commands (run ds w) = commands (run (map erase_call ds) (erase_limits w))"
    by (simp add: run_erased commands_def split: sum.splits)
  ultimately show ?thesis using assms by simp
qed

theorem limits_not_read_witness:
  "map erase_call [SetSpeedLimit 100 200 50, SetTimeOfStroke 2, SetStroke 1000, SetDepth 1000,
                   NextTarget 5000 0]
     = map erase_call [SetSpeedLimit 5 6 7, SetTimeOfStroke 2, SetStroke 1000, SetDepth 1000,
                       NextTarget 5000 0] \<and>
   erase_limits (new_pattern Knot ''Knot'' 0 0 0)
     = erase_limits (setSpeedLimit 9 9 9 (new_pattern Knot ''Knot'' 0 0 0)) \<and>
   commands (run [SetSpeedLimit 100 200 50, SetTimeOfStroke 2, SetStroke 1000, SetDepth 1000,
                  NextTarget 5000 0] (new_pattern Knot ''Knot'' 0 0 0))
     = commands (run [SetSpeedLimit 5 6 7, SetTimeOfStroke 2, SetStroke 1000, SetDepth 1000,
                      NextTarget 5000 0] (setSpeedLimit 9 9 9 (new_pattern Knot ''Knot'' 0 0 0)))"
proof -
  have calls: "map erase_call [SetSpeedLimit 100 200 50, SetTimeOfStroke 2, SetStroke 1000,
                   SetDepth 1000, NextTarget 5000 0]
     = map erase_call [SetSpeedLimit 5 6 7, SetTimeOfStroke 2, SetStroke 1000, SetDepth 1000,
                       NextTarget 5000 0]" by simp
  have objs: "erase_limits (new_pattern Knot ''Knot'' 0 0 0)
     = erase_limits (setSpeedLimit 9 9 9 (new_pattern Knot ''Knot'' 0 0 0))"
    by (simp only: erase_limits_def setSpeedLimit_twice)
  from limits_not_read [OF calls objs] calls objs show ?thesis by blast
qed

subsection \<open>Targets: the interval and the parity of the index\<close>







lemma base_fields [simp]:
  "p_stroke (Pattern.truncate s) = p_stroke s"
  "p_depth (Pattern.truncate s) = p_depth s"
  "p_timeOfStroke (Pattern.truncate s) = p_timeOfStroke s"
  "p_sensation (Pattern.truncate s) = p_sensation s"
  "p_nextMove (Pattern.truncate s) = p_nextMove s"
  by (simp_all add: Pattern.truncate_def)
















lemma configured_well_formed:
  assumes "0 < t" "0 \<le> k" "k \<le> d" "-100 \<le> x" "x \<le> 100" "cls = Insist \<longrightarrow> \<bar>x\<bar> \<noteq> 100"
  shows "\<exists>obj. run (configure t k d x) (new_pattern cls nm g1 g2 g3) = Inr ([], obj) \<and>
           well_formed obj \<and> class_of obj = cls"
proof (cases cls)
  case SimpleStroke
  with assms show ?thesis
    by (simp add: configure_def well_formed_def SimpleStroke_setTimeOfStroke_def base_defs
        new_defs)
next
  case TeasingPounding
  with assms show ?thesis
    by (simp add: configure_def well_formed_def TeasingPounding_setTimeOfStroke_def
        TeasingPounding_setSensation_def TeasingPounding_updateStrokeTiming_def Let_def
        base_defs new_defs)
next
  case RoboStroke
  with assms show ?thesis
    by (simp add: configure_def well_formed_def RoboStroke_setTimeOfStroke_def
        RoboStroke_setSensation_def Let_def base_defs new_defs)
next
  case HalfnHalf
  with assms show ?thesis
    by (simp add: configure_def well_formed_def HalfnHalf_setTimeOfStroke_def
        HalfnHalf_setSensation_def HalfnHalf_updateStrokeTiming_def Let_def
        base_defs new_defs)
next
  case Deeper
  with assms show ?thesis
    by (simp add: configure_def well_formed_def Deeper_setTimeOfStroke_def
        Deeper_setSensation_def Let_def base_defs new_defs)
next
  case StopNGo
  with assms show ?thesis
    by (simp add: configure_def well_formed_def StopNGo_setTimeOfStroke_def
        StopNGo_setSensation_def Let_def base_defs new_defs)
next
  case Insist
  with assms(6) have "\<bar>x\<bar> \<noteq> 100" by simp
  with Insist assms(1-5) show ?thesis
    by (simp add: configure_def well_formed_def updated_def Insist_setTimeOfStroke_def
        Insist_setStroke_def Insist_setSensation_def Insist_updateStrokeTiming_def Let_def
        base_defs new_defs)
next
  case Slammin
  with assms show ?thesis
    by (simp add: configure_def well_formed_def updated_def Slammin_setTimeOfStroke_def
        Slammin_setStroke_def Slammin_setSensation_def Slammin_updateOutStrokeSpeed_def Let_def
        base_defs new_defs)
next
  case Knot
  with assms show ?thesis
    by (simp add: configure_def well_formed_def updated_def Knot_setTimeOfStroke_def
        Knot_setStroke_def Knot_setSensation_def Knot_updateSlowSpeed_def Let_def
        base_defs new_defs)
qed









end
